theory Spec2Isabelle
  imports Main "HOL-Library.Sublist" "HOL-Library.Multiset"
begin

section \<open>Python values the aggregation core works on\<close>

text \<open>
  The embedding follows \<^verbatim>\<open>src/app.py\<close> (the interactive view) and
  \<^verbatim>\<open>scripts/weekly_report.py\<close> (the batch digest). Every \<^verbatim>\<open>raise\<close> that the
  code can reach is a value of \<open>error\<close>; a function that can raise returns \<open>error + 'a\<close>
  with \<open>Inl\<close> for the exception.
\<close>

datatype error =
    OverflowError | TypeError | ValueError string | FetchError | FileNotFoundError | SMTPError

subsection \<open>datetime\<close>

text \<open>
  A \<^verbatim>\<open>datetime\<close> is its calendar reading, counted in microseconds since
  0001-01-01T00:00:00 on its own clock face (\<open>wall\<close>), and its \<^verbatim>\<open>tzinfo\<close>
  (\<open>None\<close> for a naive value). A tzinfo carries the UTC offset, in microseconds, that it
  reports for the datetime it is attached to: \<open>TzUTC\<close> is the object \<^verbatim>\<open>tz.UTC\<close>,
  \<open>TzLocal\<close> is the object \<^verbatim>\<open>LOCAL_TZ = tz.tzlocal()\<close> of the module, and
  \<open>TzOffset\<close> is any other zone object (what the date-text parser attaches).
\<close>

datatype tz = TzUTC | TzLocal int | TzOffset int

record datetime =
  wall :: int
  tzinfo :: "tz option"

fun utcoffset :: "tz \<Rightarrow> int" where
  "utcoffset TzUTC = 0"
| "utcoffset (TzLocal k) = k"
| "utcoffset (TzOffset k) = k"

text \<open>\<^verbatim>\<open>tz is mytz\<close>: the two module-level zone objects are singletons.\<close>

fun same_tzinfo :: "tz \<Rightarrow> tz \<Rightarrow> bool" where
  "same_tzinfo TzUTC TzUTC = True"
| "same_tzinfo (TzLocal _) (TzLocal _) = True"
| "same_tzinfo _ _ = False"

definition us_per_day :: int where
  "us_per_day = 86400 * 1000000"

text \<open>\<^verbatim>\<open>datetime.min\<close> is ordinal day 1, \<^verbatim>\<open>datetime.max\<close> is the last microsecond of
  ordinal day 3652059 (9999-12-31).\<close>

definition in_range :: "int \<Rightarrow> bool" where
  "in_range w \<longleftrightarrow> 0 \<le> w \<and> w < 3652059 * us_per_day"

text \<open>The instant a datetime denotes, as microseconds on the UTC clock face; a naive value is
  read as UTC, which is what both normalisers do with it.\<close>

definition instant :: "datetime \<Rightarrow> int" where
  "instant dt = (case tzinfo dt of None \<Rightarrow> wall dt | Some z \<Rightarrow> wall dt - utcoffset z)"

text \<open>
  Comparison, after \<^verbatim>\<open>datetime._cmp\<close>: two naive values, two values with the same tzinfo
  object, and two values with equal offsets compare their calendar fields; two aware values
  with different offsets compare their instants; a naive and an aware value raise
  \<^verbatim>\<open>TypeError\<close>.
\<close>

definition dt_le :: "datetime \<Rightarrow> datetime \<Rightarrow> error + bool" where
  "dt_le a b =
     (case (tzinfo a, tzinfo b) of
        (None, None) \<Rightarrow> Inr (wall a \<le> wall b)
      | (Some x, Some y) \<Rightarrow>
          if same_tzinfo x y \<or> utcoffset x = utcoffset y then Inr (wall a \<le> wall b)
          else Inr (wall a - utcoffset x \<le> wall b - utcoffset y)
      | _ \<Rightarrow> Inl TypeError)"

text \<open>The strict comparison \<^verbatim>\<open>a < b\<close> goes through the same \<^verbatim>\<open>_cmp\<close>.\<close>

definition dt_lt :: "datetime \<Rightarrow> datetime \<Rightarrow> error + bool" where
  "dt_lt a b =
     (case (tzinfo a, tzinfo b) of
        (None, None) \<Rightarrow> Inr (wall a < wall b)
      | (Some x, Some y) \<Rightarrow>
          if same_tzinfo x y \<or> utcoffset x = utcoffset y then Inr (wall a < wall b)
          else Inr (wall a - utcoffset x < wall b - utcoffset y)
      | _ \<Rightarrow> Inl TypeError)"

subsubsection \<open>The constructor \<^verbatim>\<open>datetime(*t[:6])\<close>\<close>

definition is_leap :: "int \<Rightarrow> bool" where
  "is_leap y \<longleftrightarrow> y mod 4 = 0 \<and> (y mod 100 \<noteq> 0 \<or> y mod 400 = 0)"

definition days_before_year :: "int \<Rightarrow> int" where
  "days_before_year year = (let y = year - 1 in y * 365 + y div 4 - y div 100 + y div 400)"

definition days_in_month :: "int \<Rightarrow> int \<Rightarrow> int" where
  "days_in_month y m =
     (if m = 2 \<and> is_leap y then 29
      else [31, 28, 31, 30, 31, 30, 31, 31, 30, 31, 30, 31] ! nat (m - 1))"

definition days_before_month :: "int \<Rightarrow> int \<Rightarrow> int" where
  "days_before_month y m =
     [0, 31, 59, 90, 120, 151, 181, 212, 243, 273, 304, 334] ! nat (m - 1)
       + (if m > 2 \<and> is_leap y then 1 else 0)"

definition ymd2ord :: "int \<Rightarrow> int \<Rightarrow> int \<Rightarrow> int" where
  "ymd2ord y m d = days_before_year y + days_before_month y m + d"

text \<open>The checked constructor; \<open>None\<close> is its \<^verbatim>\<open>ValueError\<close>. The month is checked before
  the tables are read.\<close>

definition new_datetime :: "int \<Rightarrow> int \<Rightarrow> int \<Rightarrow> int \<Rightarrow> int \<Rightarrow> int \<Rightarrow> datetime option" where
  "new_datetime y m d hh mm ss =
     (if 1 \<le> y \<and> y \<le> 9999 \<and> 1 \<le> m \<and> m \<le> 12 \<and> 1 \<le> d \<and> d \<le> days_in_month y m
         \<and> 0 \<le> hh \<and> hh \<le> 23 \<and> 0 \<le> mm \<and> mm \<le> 59 \<and> 0 \<le> ss \<and> ss \<le> 59
      then Some \<lparr>wall = (((ymd2ord y m d - 1) * 86400 + hh * 3600 + mm * 60 + ss) * 1000000),
                 tzinfo = None\<rparr>
      else None)"

text \<open>A time breakdown is the tuple of integers feedparser stores (year, month, day, hour,
  minute, second, weekday, yearday, isdst). The slice keeps at most six of them; with fewer
  than three the call lacks a required argument (\<^verbatim>\<open>TypeError\<close>), and the missing time
  fields default to 0.\<close>

fun datetime_of_fields :: "int list \<Rightarrow> datetime option" where
  "datetime_of_fields (y # m # d # hh # mm # ss # _) = new_datetime y m d hh mm ss"
| "datetime_of_fields [y, m, d, hh, mm] = new_datetime y m d hh mm 0"
| "datetime_of_fields [y, m, d, hh] = new_datetime y m d hh 0 0"
| "datetime_of_fields [y, m, d] = new_datetime y m d 0 0 0"
| "datetime_of_fields _ = None"

subsubsection \<open>Zone conversion\<close>

text \<open>
  \<^verbatim>\<open>dt.astimezone(tz)\<close> on an aware value returns \<^verbatim>\<open>dt\<close> itself when \<^verbatim>\<open>tz\<close> is its
  tzinfo; otherwise it subtracts the offset (\<^verbatim>\<open>OverflowError\<close> outside
  \<^verbatim>\<open>datetime.min .. datetime.max\<close>) and lets the target zone place the UTC reading.
  The local zone is a parameter \<open>tzl\<close>: the offset, in microseconds, that the process's zone
  has at a given UTC reading.
\<close>

definition astimezone_utc :: "datetime \<Rightarrow> tz \<Rightarrow> error + datetime" where
  "astimezone_utc dt z =
     (if same_tzinfo TzUTC z then Inr dt
      else let u = wall dt - utcoffset z in
        if in_range u then Inr \<lparr>wall = u, tzinfo = Some TzUTC\<rparr> else Inl OverflowError)"

definition astimezone_local :: "(int \<Rightarrow> int) \<Rightarrow> datetime \<Rightarrow> tz \<Rightarrow> error + datetime" where
  "astimezone_local tzl dt z =
     (if same_tzinfo (TzLocal 0) z then Inr dt
      else let u = wall dt - utcoffset z in
        if \<not> in_range u then Inl OverflowError
        else if \<not> in_range (u + tzl u) then Inl OverflowError
        else Inr \<lparr>wall = u + tzl u, tzinfo = Some (TzLocal (tzl u))\<rparr>)"

definition to_local :: "(int \<Rightarrow> int) \<Rightarrow> datetime \<Rightarrow> error + datetime" where
  "to_local tzl dt =
     (case tzinfo dt of
        None \<Rightarrow> astimezone_local tzl (dt\<lparr>tzinfo := Some TzUTC\<rparr>) TzUTC
      | Some z \<Rightarrow> astimezone_local tzl dt z)"

definition to_utc :: "datetime \<Rightarrow> error + datetime" where
  "to_utc dt =
     (case tzinfo dt of
        None \<Rightarrow> Inr (dt\<lparr>tzinfo := Some TzUTC\<rparr>)
      | Some z \<Rightarrow> astimezone_utc dt z)"

section \<open>Entries, articles and the two normalisers\<close>

text \<open>
  A raw entry is the dictionary feedparser produces; \<^verbatim>\<open>entry.get(k)\<close> is \<open>None\<close> for a
  missing key. The fields the normalisers read are typed as feedparser fills them: text
  fields are strings, the two \<^verbatim>\<open>*_parsed\<close> fields are time breakdowns, \<^verbatim>\<open>authors\<close> is
  a list of dictionaries of which only the optional \<^verbatim>\<open>name\<close> is read.
\<close>

record raw_entry =
  e_title :: "string option"
  e_link :: "string option"
  e_published :: "string option"
  e_updated :: "string option"
  e_pubDate :: "string option"
  e_dc_date :: "string option"
  e_published_parsed :: "int list option"
  e_updated_parsed :: "int list option"
  e_author :: "string option"
  e_authors :: "string option list option"
  e_summary :: "string option"
  e_description :: "string option"

record article =
  title :: string
  link :: string
  source :: string
  published :: datetime
  authors :: "string option"
  summary :: "string option"

text \<open>Truthiness of an optional string or tuple: present and not empty.\<close>

definition truthy :: "'a list option \<Rightarrow> bool" where
  "truthy v \<longleftrightarrow> (case v of None \<Rightarrow> False | Some x \<Rightarrow> x \<noteq> [])"

text \<open>\<^verbatim>\<open>entry.get(key)\<close> for the text keys that the loops of \<^verbatim>\<open>parse_entry\<close> walk.\<close>

definition entry_get :: "raw_entry \<Rightarrow> string \<Rightarrow> string option" where
  "entry_get e key =
     (if key = ''published'' then e_published e
      else if key = ''updated'' then e_updated e
      else if key = ''pubDate'' then e_pubDate e
      else if key = ''dc:date'' then e_dc_date e
      else if key = ''summary'' then e_summary e
      else if key = ''description'' then e_description e
      else None)"

text \<open>
  \<^verbatim>\<open>for key in keys: value = entry.get(key); if value: try: published_dt = parse_date(value);
  break; except Exception: continue\<close>. The date-text parser of dateutil is the parameter
  \<open>parse_date\<close>; \<open>None\<close> is any exception it raises.
\<close>

fun parse_first :: "(string \<Rightarrow> datetime option) \<Rightarrow> raw_entry \<Rightarrow> string list \<Rightarrow> datetime option" where
  "parse_first parse_date e [] = None"
| "parse_first parse_date e (key # keys) =
     (let v = entry_get e key in
      if truthy v then
        (case parse_date (the v) of
           Some dt \<Rightarrow> Some dt
         | None \<Rightarrow> parse_first parse_date e keys)
      else parse_first parse_date e keys)"

text \<open>\<^verbatim>\<open>if entry.get(k_parsed): try: published_dt = datetime(*entry.k_parsed[:6]) except
  Exception: published_dt = None\<close>.\<close>

definition parse_struct :: "int list option \<Rightarrow> datetime option" where
  "parse_struct v = (if truthy v then datetime_of_fields (the v) else None)"

fun join :: "string \<Rightarrow> string list \<Rightarrow> string" where
  "join sep [] = []"
| "join sep [x] = x"
| "join sep (x # y # ys) = x @ sep @ join sep (y # ys)"

definition resolve_authors :: "raw_entry \<Rightarrow> string option" where
  "resolve_authors e =
     (if truthy (e_author e) then e_author e
      else if truthy (e_authors e)
        then Some (join '', '' (map the (filter truthy (the (e_authors e)))))
      else None)"

fun first_truthy :: "raw_entry \<Rightarrow> string list \<Rightarrow> string option" where
  "first_truthy e [] = None"
| "first_truthy e (key # keys) =
     (if truthy (entry_get e key) then entry_get e key else first_truthy e keys)"

text \<open>Everything after the date is resolved is the same text in both files, up to the zone
  conversion \<open>conv\<close> applied to the date.\<close>

definition build_article ::
  "(datetime \<Rightarrow> error + datetime) \<Rightarrow> raw_entry \<Rightarrow> string \<Rightarrow> datetime \<Rightarrow> error + article option" where
  "build_article conv e source_name published_dt =
     (let authors' = resolve_authors e;
          summary_text = first_truthy e [''summary'', ''description''];
          link' = (if truthy (e_link e) then the (e_link e) else [])
      in case conv published_dt of
           Inl err \<Rightarrow> Inl err
         | Inr p \<Rightarrow>
             Inr (Some \<lparr>title = (case e_title e of None \<Rightarrow> ''(no title)'' | Some t \<Rightarrow> t),
                        link = link', source = source_name, published = p,
                        authors = authors', summary = summary_text\<rparr>))"

subsection \<open>\<^verbatim>\<open>src/app.py\<close>\<close>

definition app_resolve_date :: "(string \<Rightarrow> datetime option) \<Rightarrow> raw_entry \<Rightarrow> datetime option" where
  "app_resolve_date parse_date e =
     (case parse_first parse_date e [''published'', ''updated'', ''pubDate'', ''dc:date''] of
        Some dt \<Rightarrow> Some dt
      | None \<Rightarrow> parse_struct (e_published_parsed e))"

definition app_parse_entry ::
  "(string \<Rightarrow> datetime option) \<Rightarrow> raw_entry \<Rightarrow> string \<Rightarrow> error + article option" where
  "app_parse_entry parse_date e source_name =
     (case app_resolve_date parse_date e of
        None \<Rightarrow> Inr None
      | Some published_dt \<Rightarrow> build_article to_utc e source_name published_dt)"

subsection \<open>\<^verbatim>\<open>scripts/weekly_report.py\<close>\<close>

definition weekly_resolve_date :: "(string \<Rightarrow> datetime option) \<Rightarrow> raw_entry \<Rightarrow> datetime option" where
  "weekly_resolve_date parse_date e =
     (case parse_struct (e_published_parsed e) of
        Some dt \<Rightarrow> Some dt
      | None \<Rightarrow>
     (case parse_first parse_date e [''published''] of
        Some dt \<Rightarrow> Some dt
      | None \<Rightarrow>
     (case parse_first parse_date e [''pubDate'', ''dc:date''] of
        Some dt \<Rightarrow> Some dt
      | None \<Rightarrow>
     (case parse_struct (e_updated_parsed e) of
        Some dt \<Rightarrow> Some dt
      | None \<Rightarrow> parse_first parse_date e [''updated'']))))"

definition weekly_parse_entry ::
  "(string \<Rightarrow> datetime option) \<Rightarrow> (int \<Rightarrow> int) \<Rightarrow> raw_entry \<Rightarrow> string \<Rightarrow> error + article option" where
  "weekly_parse_entry parse_date tzl e source_name =
     (case weekly_resolve_date parse_date e of
        None \<Rightarrow> Inr None
      | Some published_dt \<Rightarrow> build_article (to_local tzl) e source_name published_dt)"

section \<open>The aggregator\<close>

text \<open>A registry item is a dictionary read with \<^verbatim>\<open>src.get\<close>.\<close>

record source_item =
  src_name :: "string option"
  src_url :: "string option"
  src_region :: "string option"

text \<open>
  The inner loop appends to the shared list \<^verbatim>\<open>articles\<close>; an exception leaves the loop
  with what was appended before it. The result is the list and the exception, if any.
\<close>

fun entries_loop ::
  "(raw_entry \<Rightarrow> string \<Rightarrow> error + article option) \<Rightarrow> string \<Rightarrow> raw_entry list \<Rightarrow> article list
     \<Rightarrow> article list \<times> error option" where
  "entries_loop parse name [] articles = (articles, None)"
| "entries_loop parse name (entry # entries) articles =
     (case parse entry name of
        Inl err \<Rightarrow> (articles, Some err)
      | Inr None \<Rightarrow> entries_loop parse name entries articles
      | Inr (Some art) \<Rightarrow> entries_loop parse name entries (articles @ [art]))"

text \<open>
  The outer loop. \<open>fetch_feed\<close> is the call as \<^verbatim>\<open>load_articles\<close> sees it (in
  \<^verbatim>\<open>app.py\<close> after the retries of its decorator): the entries of the feed, or the exception.
  \<^verbatim>\<open>except Exception: continue\<close> discards the exception and goes to the next source.
\<close>

fun sources_loop ::
  "(string \<Rightarrow> error + raw_entry list) \<Rightarrow> (raw_entry \<Rightarrow> string \<Rightarrow> error + article option)
     \<Rightarrow> source_item list \<Rightarrow> article list \<Rightarrow> article list" where
  "sources_loop fetch_feed parse [] articles = articles"
| "sources_loop fetch_feed parse (src # srcs) articles =
     (let url = src_url src;
          name = (if truthy (src_name src) then src_name src else url)
      in if \<not> truthy url then sources_loop fetch_feed parse srcs articles
         else
           (case fetch_feed (the url) of
              Inl err \<Rightarrow> sources_loop fetch_feed parse srcs articles
            | Inr entries \<Rightarrow>
                sources_loop fetch_feed parse srcs
                  (fst (entries_loop parse (the name) entries articles))))"

definition dedupe_key :: "article \<Rightarrow> string" where
  "dedupe_key a = (if link a \<noteq> [] then link a else title a)"

fun dedupe_loop :: "string set \<Rightarrow> article list \<Rightarrow> article list" where
  "dedupe_loop seen [] = []"
| "dedupe_loop seen (a # as) =
     (let key = dedupe_key a in
      if key \<in> seen then dedupe_loop seen as
      else a # dedupe_loop (insert key seen) as)"

text \<open>
  \<^verbatim>\<open>sort(key=lambda a: a.published, reverse=True)\<close>: CPython reverses the list, sorts it
  stably in ascending order and reverses it again. The keys of one list all carry the same
  tzinfo object (lemmas \<open>app_published_utc\<close>, \<open>weekly_published_local\<close> below), so their
  comparison is the comparison of the calendar readings.
\<close>

definition sort_published_desc :: "article list \<Rightarrow> article list" where
  "sort_published_desc xs = rev (sort_key (\<lambda>a. wall (published a)) (rev xs))"

definition finish :: "article list \<Rightarrow> article list" where
  "finish articles = sort_published_desc (dedupe_loop {} articles)"

definition app_load_articles ::
  "(string \<Rightarrow> error + raw_entry list) \<Rightarrow> (string \<Rightarrow> datetime option) \<Rightarrow> source_item list
     \<Rightarrow> article list" where
  "app_load_articles fetch_feed parse_date sources =
     finish (sources_loop fetch_feed (app_parse_entry parse_date) sources [])"

definition weekly_load_articles ::
  "(string \<Rightarrow> error + raw_entry list) \<Rightarrow> (string \<Rightarrow> datetime option) \<Rightarrow> (int \<Rightarrow> int)
     \<Rightarrow> source_item list \<Rightarrow> article list" where
  "weekly_load_articles fetch_feed parse_date tzl sources =
     finish (sources_loop fetch_feed (weekly_parse_entry parse_date tzl) sources [])"

section \<open>The filter engine of \<^verbatim>\<open>src/app.py\<close>\<close>

text \<open>The chained comparison \<^verbatim>\<open>start <= p <= end\<close>: the second comparison is made only when
  the first is true, and either can raise.\<close>

definition between :: "datetime \<Rightarrow> datetime \<Rightarrow> datetime \<Rightarrow> error + bool" where
  "between start p end' =
     (case dt_le start p of
        Inl err \<Rightarrow> Inl err
      | Inr False \<Rightarrow> Inr False
      | Inr True \<Rightarrow> dt_le p end')"

text \<open>
  A Python string is modelled by its UTF-8 encoding, one \<open>char\<close> per byte: emptiness,
  equality, concatenation and the substring test \<^verbatim>\<open>in\<close> are the same on the encodings as on
  the code points. \<^verbatim>\<open>str.lower\<close> is Unicode's lowering, which depends on tables and on the
  neighbours of a letter; it is the parameter \<open>lower\<close> of the functions that call it.
\<close>

text \<open>\<^verbatim>\<open>source_name_to_region.get(a.source, "Global")\<close>.\<close>

definition region_of :: "(string \<rightharpoonup> string) \<Rightarrow> article \<Rightarrow> string" where
  "region_of source_name_to_region a =
     (case source_name_to_region (source a) of None \<Rightarrow> ''Global'' | Some r \<Rightarrow> r)"

text \<open>The first loop of \<^verbatim>\<open>apply_filters\<close>, with its three \<^verbatim>\<open>continue\<close> statements.\<close>

fun filter_loop ::
  "datetime \<Rightarrow> datetime \<Rightarrow> string set \<Rightarrow> string set \<Rightarrow> (string \<rightharpoonup> string) \<Rightarrow> article list
     \<Rightarrow> error + article list" where
  "filter_loop start_date end_date allowed_sources allowed_regions m [] = Inr []"
| "filter_loop start_date end_date allowed_sources allowed_regions m (a # as) =
     (case between start_date (published a) end_date of
        Inl err \<Rightarrow> Inl err
      | Inr inside \<Rightarrow>
          (case filter_loop start_date end_date allowed_sources allowed_regions m as of
             Inl err \<Rightarrow> Inl err
           | Inr filtered \<Rightarrow>
               if \<not> inside then Inr filtered
               else if allowed_sources \<noteq> {} \<and> source a \<notin> allowed_sources then Inr filtered
               else if allowed_regions \<noteq> {} \<and> region_of m a \<notin> allowed_regions then Inr filtered
               else Inr (a # filtered)))"

text \<open>\<^verbatim>\<open>q in a.title.lower() or (a.summary and q in a.summary.lower())\<close>, where \<^verbatim>\<open>in\<close> on
  strings is the contiguous-substring test.\<close>

definition query_matches :: "(string \<Rightarrow> string) \<Rightarrow> string \<Rightarrow> article \<Rightarrow> bool" where
  "query_matches lower q a \<longleftrightarrow>
     sublist q (lower (title a)) \<or> (truthy (summary a) \<and> sublist q (lower (the (summary a))))"

definition apply_filters ::
  "(string \<Rightarrow> string) \<Rightarrow> article list \<Rightarrow> datetime \<Rightarrow> datetime \<Rightarrow> string set \<Rightarrow> string set
     \<Rightarrow> (string \<rightharpoonup> string) \<Rightarrow> string \<Rightarrow> error + article list" where
  "apply_filters lower articles start_date end_date allowed_sources allowed_regions m query =
     (case filter_loop start_date end_date allowed_sources allowed_regions m articles of
        Inl err \<Rightarrow> Inl err
      | Inr filtered \<Rightarrow>
          if query \<noteq> [] then Inr (filter (query_matches lower (lower query)) filtered)
          else Inr filtered)"

section \<open>The batch run of \<^verbatim>\<open>scripts/weekly_report.py\<close>\<close>

text \<open>\<^verbatim>\<open>[a for a in articles if start <= a.published <= end]\<close>.\<close>

fun filter_window :: "datetime \<Rightarrow> datetime \<Rightarrow> article list \<Rightarrow> error + article list" where
  "filter_window start end' [] = Inr []"
| "filter_window start end' (a # as) =
     (case between start (published a) end' of
        Inl err \<Rightarrow> Inl err
      | Inr inside \<Rightarrow>
          (case filter_window start end' as of
             Inl err \<Rightarrow> Inl err
           | Inr filtered \<Rightarrow> Inr (if inside then a # filtered else filtered)))"

text \<open>The slice \<^verbatim>\<open>xs[:n]\<close>; a negative \<^verbatim>\<open>n\<close> counts from the end.\<close>

definition slice_to :: "int \<Rightarrow> 'a list \<Rightarrow> 'a list" where
  "slice_to n xs = (if 0 \<le> n then take (nat n) xs else take (length xs - nat (- n)) xs)"

text \<open>\<^verbatim>\<open>datetime.now(tz=LOCAL_TZ)\<close>, from the UTC reading of the clock.\<close>

definition now_local :: "(int \<Rightarrow> int) \<Rightarrow> int \<Rightarrow> datetime" where
  "now_local tzl clock = \<lparr>wall = clock + tzl clock, tzinfo = Some (TzLocal (tzl clock))\<rparr>"

subsection \<open>The built-in sort\<close>

text \<open>
  \<^verbatim>\<open>sorted\<close> is the list sort of CPython 3.11 (\<^verbatim>\<open>Objects/listobject.c\<close>). It calls nothing
  but \<^verbatim>\<open><\<close> on the keys. On a list shorter than 64 elements it finds the run the list
  starts with (\<^verbatim>\<open>count_run\<close>: ascending, or strictly descending and then reversed) and
  inserts every later element into the sorted part at the place a binary search gives
  (\<^verbatim>\<open>binarysort\<close>). A longer list is cut into several such runs that are merged; where
  \<^verbatim>\<open><\<close> orders the keys consistently the result is the same stable sort, and only that
  case is used below for a longer list.
\<close>

fun run_asc :: "('a \<Rightarrow> 'a \<Rightarrow> bool) \<Rightarrow> 'a \<Rightarrow> 'a list \<Rightarrow> nat" where
  "run_asc lt prev [] = 0"
| "run_asc lt prev (x # xs) = (if lt x prev then 0 else Suc (run_asc lt x xs))"

fun run_desc :: "('a \<Rightarrow> 'a \<Rightarrow> bool) \<Rightarrow> 'a \<Rightarrow> 'a list \<Rightarrow> nat" where
  "run_desc lt prev [] = 0"
| "run_desc lt prev (x # xs) = (if lt x prev then Suc (run_desc lt x xs) else 0)"

text \<open>The length of the first run, and whether it descends.\<close>

fun count_run :: "('a \<Rightarrow> 'a \<Rightarrow> bool) \<Rightarrow> 'a list \<Rightarrow> nat \<times> bool" where
  "count_run lt [] = (0, False)"
| "count_run lt [x] = (1, False)"
| "count_run lt (x # y # zs) =
     (if lt y x then (2 + run_desc lt y zs, True) else (2 + run_asc lt y zs, False))"

text \<open>The binary search of \<^verbatim>\<open>binarysort\<close> in \<open>xs\<close> between \<open>l\<close> and \<open>r\<close>: the place of the
  pivot is after every element that the search finds not greater.\<close>

function bisect :: "('a \<Rightarrow> 'a \<Rightarrow> bool) \<Rightarrow> 'a \<Rightarrow> 'a list \<Rightarrow> nat \<Rightarrow> nat \<Rightarrow> nat" where
  "bisect lt pivot xs l r =
     (if l < r then
        (let p = l + (r - l) div 2 in
         if lt pivot (xs ! p) then bisect lt pivot xs l p else bisect lt pivot xs (Suc p) r)
      else l)"
  by pat_completeness auto
termination
  by (relation "measure (\<lambda>(lt, pivot, xs, l, r). r - l)") auto

declare bisect.simps [simp del]

definition binary_insert :: "('a \<Rightarrow> 'a \<Rightarrow> bool) \<Rightarrow> 'a \<Rightarrow> 'a list \<Rightarrow> 'a list" where
  "binary_insert lt pivot xs =
     (let l = bisect lt pivot xs 0 (length xs) in take l xs @ pivot # drop l xs)"

definition binarysort :: "('a \<Rightarrow> 'a \<Rightarrow> bool) \<Rightarrow> 'a list \<Rightarrow> 'a list \<Rightarrow> 'a list" where
  "binarysort lt run rest = fold (binary_insert lt) rest run"

definition list_sort :: "('a \<Rightarrow> 'a \<Rightarrow> bool) \<Rightarrow> 'a list \<Rightarrow> 'a list" where
  "list_sort lt xs =
     (if length xs < 2 then xs
      else
        (let (n, descending) = count_run lt xs;
             run = (if descending then rev (take n xs) else take n xs)
         in binarysort lt run (drop n xs)))"

text \<open>
  \<^verbatim>\<open>sorted(filtered, key=lambda a: a.published, reverse=True)\<close>. With \<^verbatim>\<open>reverse=True\<close> the
  list is reversed, sorted and reversed again. A naive and an aware key in one list are
  compared at some point of every sort, which raises \<^verbatim>\<open>TypeError\<close>.
\<close>

definition published_lt :: "article \<Rightarrow> article \<Rightarrow> bool" where
  "published_lt a b \<longleftrightarrow> dt_lt (published a) (published b) = Inr True"

definition sorted_published_desc :: "article list \<Rightarrow> error + article list" where
  "sorted_published_desc xs =
     (if (\<exists>a\<in>set xs. tzinfo (published a) = None) \<and> (\<exists>a\<in>set xs. tzinfo (published a) \<noteq> None)
      then Inl TypeError
      else Inr (rev (list_sort published_lt (rev xs))))"

subsection \<open>\<^verbatim>\<open>filter_last_days_top_n\<close>\<close>

text \<open>
  \<^verbatim>\<open>timedelta(days=days)\<close> raises \<^verbatim>\<open>OverflowError\<close> beyond 999999999 days, and so does the
  subtraction when it leaves the range of \<^verbatim>\<open>datetime\<close>. The subtraction works on the
  calendar reading and keeps the tzinfo object, so the start reports the offset that the
  local zone has at the start's own calendar reading: the parameter \<open>tzw\<close> is the offset
  that \<^verbatim>\<open>LOCAL_TZ\<close> reports for a calendar reading (\<open>tzl\<close> is its offset at a UTC reading).
\<close>

definition filter_last_days_top_n ::
  "(int \<Rightarrow> int) \<Rightarrow> (int \<Rightarrow> int) \<Rightarrow> int \<Rightarrow> article list \<Rightarrow> int \<Rightarrow> int \<Rightarrow> error + article list" where
  "filter_last_days_top_n tzl tzw clock articles days top_n =
     (let end' = now_local tzl clock in
      if \<bar>days\<bar> > 999999999 then Inl OverflowError
      else if \<not> in_range (wall end' - days * us_per_day) then Inl OverflowError
      else
        (let start = \<lparr>wall = wall end' - days * us_per_day,
                      tzinfo = Some (TzLocal (tzw (wall end' - days * us_per_day)))\<rparr> in
         case filter_window start end' articles of
           Inl err \<Rightarrow> Inl err
         | Inr filtered \<Rightarrow>
             (case sorted_published_desc filtered of
                Inl err \<Rightarrow> Inl err
              | Inr ordered \<Rightarrow> Inr (slice_to top_n ordered))))"

text \<open>The registry of \<^verbatim>\<open>src/sources.py\<close>.\<close>

definition DEFAULT_SOURCES :: "source_item list" where
  "DEFAULT_SOURCES =
    [\<lparr>src_name = Some ''OpenAI Blog'', src_url = Some ''https://openai.com/blog/rss.xml'',
       src_region = Some ''North America''\<rparr>,
     \<lparr>src_name = Some ''Google AI Blog'', src_url = Some ''https://ai.googleblog.com/feeds/posts/default'',
       src_region = Some ''North America''\<rparr>,
     \<lparr>src_name = Some ''DeepMind'', src_url = Some ''https://deepmind.google/discover/blog/feed.xml'',
       src_region = Some ''Europe''\<rparr>,
     \<lparr>src_name = Some ''Anthropic'', src_url = Some ''https://www.anthropic.com/news.xml'',
       src_region = Some ''North America''\<rparr>,
     \<lparr>src_name = Some ''Hugging Face Blog'', src_url = Some ''https://huggingface.co/blog/feed.xml'',
       src_region = Some ''Europe''\<rparr>,
     \<lparr>src_name = Some ''Stability AI'', src_url = Some ''https://stability.ai/blog/rss.xml'',
       src_region = Some ''Europe''\<rparr>,
     \<lparr>src_name = Some ''NVIDIA Technical Blog - AI'', src_url = Some ''https://developer.nvidia.com/blog/tag/ai/feed/'',
       src_region = Some ''North America''\<rparr>,
     \<lparr>src_name = Some ''Berkeley BAIR Blog'', src_url = Some ''https://bair.berkeley.edu/blog/feed.xml'',
       src_region = Some ''North America''\<rparr>,
     \<lparr>src_name = Some ''Stanford HAI'', src_url = Some ''https://hai.stanford.edu/news/feed'',
       src_region = Some ''North America''\<rparr>,
     \<lparr>src_name = Some ''MIT News - AI'', src_url = Some ''https://news.mit.edu/topic/artificial-intelligence2-rss.xml'',
       src_region = Some ''North America''\<rparr>,
     \<lparr>src_name = Some ''Allen AI (AI2)'', src_url = Some ''https://allenai.org/news/rss.xml'',
       src_region = Some ''North America''\<rparr>,
     \<lparr>src_name = Some ''Papers With Code - Daily'', src_url = Some ''https://paperswithcode.com/news/daily/rss'',
       src_region = Some ''Global''\<rparr>,
     \<lparr>src_name = Some ''The Gradient'', src_url = Some ''https://thegradient.pub/rss/'',
       src_region = Some ''Global''\<rparr>,
     \<lparr>src_name = Some ''TechCrunch AI'', src_url = Some ''https://techcrunch.com/tag/artificial-intelligence/feed/'',
       src_region = Some ''North America''\<rparr>,
     \<lparr>src_name = Some ''The Verge AI'', src_url = Some ''https://www.theverge.com/artificial-intelligence/rss/index.xml'',
       src_region = Some ''North America''\<rparr>,
     \<lparr>src_name = Some ''NYT - AI'', src_url = Some ''https://rss.nytimes.com/services/xml/rss/nyt/ArtificialIntelligence.xml'',
       src_region = Some ''North America''\<rparr>,
     \<lparr>src_name = Some ''VentureBeat AI'', src_url = Some ''https://venturebeat.com/category/ai/feed/'',
       src_region = Some ''North America''\<rparr>,
     \<lparr>src_name = Some ''Preferred Networks Tech Blog'', src_url = Some ''https://tech.preferred.jp/en/blog/rss.xml'',
       src_region = Some ''Asia''\<rparr>,
     \<lparr>src_name = Some ''LINE Engineering (EN)'', src_url = Some ''https://engineering.linecorp.com/en/blog/rss/'',
       src_region = Some ''Asia''\<rparr>,
     \<lparr>src_name = Some ''Sony AI Blog'', src_url = Some ''https://ai.sony/blog/index.xml'',
       src_region = Some ''Asia''\<rparr>]"

text \<open>
  What the run touches outside the process: the files it writes, keyed by directory and
  name, the lines it prints, and the messages handed to the mail server. Creating the
  directories and writing a file are taken to succeed.
\<close>

type_synonym path = "string \<times> string"

record message =
  msg_from :: string
  msg_to :: string
  msg_subject :: string
  msg_body :: string
  msg_attachments :: "(string \<times> string) list"

record world =
  files :: "path \<rightharpoonup> string"
  stdout :: "string list"
  outbox :: "message list"

record environ =
  PERIOD_DAYS :: "string option"
  RECIPIENT_EMAIL :: "string option"
  EMAIL_SENDER :: "string option"
  EMAIL_PASSWORD :: "string option"

text \<open>The collaborators the run calls and this development does not look into: the feed
  fetch, the date-text parser, the local zone (its offset at a UTC reading and at a calendar
  reading), the clock, \<^verbatim>\<open>int()\<close> on a string, the HTML
  template, the CSV writer's output and the SMTP session (true when the server takes the
  message).\<close>

record externals =
  x_fetch_feed :: "string \<Rightarrow> error + raw_entry list"
  x_parse_date :: "string \<Rightarrow> datetime option"
  x_tzl :: "int \<Rightarrow> int"
  x_tzw :: "int \<Rightarrow> int"
  x_clock :: int
  x_int :: "string \<Rightarrow> int option"
  x_render_html :: "article list \<Rightarrow> int \<Rightarrow> string \<Rightarrow> string"
  x_csv :: "article list \<Rightarrow> string"
  x_smtp :: "string \<Rightarrow> string \<Rightarrow> message \<Rightarrow> bool"

definition write_text :: "path \<Rightarrow> string \<Rightarrow> world \<Rightarrow> world" where
  "write_text p content w = w\<lparr>files := (files w)(p \<mapsto> content)\<rparr>"

definition print :: "string \<Rightarrow> world \<Rightarrow> world" where
  "print line w = w\<lparr>stdout := stdout w @ [line]\<rparr>"

definition generate_summary :: "article list \<Rightarrow> string" where
  "generate_summary articles =
     (if articles = [] then ''No articles available for this period.''
      else ''This week's AI digest highlights the top advancements and discussions in the field. ''
         @ ''Key topics include '' @ join '', '' (map title (take 3 articles)) @ ''. ''
         @ ''Stay updated with the latest breakthroughs and insights from the AI community.'')"

text \<open>Reading the attachments: a file that was never written is \<^verbatim>\<open>FileNotFoundError\<close>.\<close>

fun read_attachments :: "(path \<rightharpoonup> string) \<Rightarrow> path list \<Rightarrow> error + (string \<times> string) list" where
  "read_attachments fs [] = Inr []"
| "read_attachments fs (p # ps) =
     (case fs p of
        None \<Rightarrow> Inl FileNotFoundError
      | Some content \<Rightarrow>
          (case read_attachments fs ps of
             Inl err \<Rightarrow> Inl err
           | Inr parts \<Rightarrow> Inr ((snd p, content) # parts)))"

definition send_email ::
  "externals \<Rightarrow> environ \<Rightarrow> string \<Rightarrow> string \<Rightarrow> string \<Rightarrow> path list \<Rightarrow> world \<Rightarrow> error + world" where
  "send_email x env subject body to_email attachments w =
     (let sender_email = EMAIL_SENDER env; sender_password = EMAIL_PASSWORD env in
      if \<not> truthy sender_email \<or> \<not> truthy sender_password
      then Inl (ValueError ''Please set EMAIL_SENDER and EMAIL_PASSWORD environment variables.'')
      else
        (case read_attachments (files w) attachments of
           Inl err \<Rightarrow> Inl err
         | Inr parts \<Rightarrow>
             (let msg = \<lparr>msg_from = the sender_email, msg_to = to_email, msg_subject = subject,
                         msg_body = body, msg_attachments = parts\<rparr>
              in if x_smtp x (the sender_email) (the sender_password) msg
                 then Inr (w\<lparr>outbox := outbox w @ [msg]\<rparr>)
                 else Inl SMTPError)))"

text \<open>\<^verbatim>\<open>main\<close>. An exception that leaves it is the second component of the result, next to
  the world as it was when the exception was raised.\<close>

definition main :: "externals \<Rightarrow> environ \<Rightarrow> world \<Rightarrow> world \<times> error option" where
  "main x env w =
     (case x_int x (case PERIOD_DAYS env of None \<Rightarrow> ''7'' | Some v \<Rightarrow> v) of
        None \<Rightarrow> (w, Some (ValueError ''invalid literal for int() with base 10''))
      | Some period_days \<Rightarrow>
          (let all_articles =
                 weekly_load_articles (x_fetch_feed x) (x_parse_date x) (x_tzl x) DEFAULT_SOURCES
           in case filter_last_days_top_n (x_tzl x) (x_tzw x) (x_clock x) all_articles period_days 10 of
                Inl err \<Rightarrow> (w, Some err)
              | Inr recent \<Rightarrow>
                  (let summary' = generate_summary recent;
                       html = x_render_html x recent period_days summary';
                       w1 = write_text (''dist'', ''newsletter.html'') html w;
                       w2 = write_text (''dist'', ''newsletter.csv'') (x_csv x recent) w1;
                       w3 = write_text (''docs'', ''index.html'') html w2;
                       w4 = print ''Wrote: dist/newsletter.html'' w3;
                       w5 = print ''Wrote: dist/newsletter.csv'' w4;
                       w6 = print ''Wrote: docs/index.html (for GitHub Pages)'' w5;
                       recipient_email = RECIPIENT_EMAIL env
                   in if truthy recipient_email then
                        (case send_email x env ''Weekly AI Newsletter'' html (the recipient_email)
                                [(''dist'', ''newsletter.html''), (''dist'', ''newsletter.csv'')] w6 of
                           Inl err \<Rightarrow> (w6, Some err)
                         | Inr w7 \<Rightarrow>
                             (print (''Newsletter sent to '' @ the recipient_email) w7, None))
                      else
                        (print ''No RECIPIENT_EMAIL environment variable set. Skipping email sending.''
                           w6, None))))"

section \<open>Notions used to state the properties\<close>

text \<open>What the inner loop leaves in the list for one feed: the articles of the entries before
  the first one whose normalisation raises.\<close>

definition normalized ::
  "(raw_entry \<Rightarrow> string \<Rightarrow> error + article option) \<Rightarrow> string \<Rightarrow> raw_entry list \<Rightarrow> article list" where
  "normalized parse name entries =
     List.map_filter (\<lambda>e. case parse e name of Inl err \<Rightarrow> None | Inr r \<Rightarrow> r)
       (takeWhile (\<lambda>e. \<not> isl (parse e name)) entries)"

text \<open>What one registry item adds to the working list: the outer loop run on it alone.\<close>

definition contribution ::
  "(string \<Rightarrow> error + raw_entry list) \<Rightarrow> (raw_entry \<Rightarrow> string \<Rightarrow> error + article option)
     \<Rightarrow> source_item \<Rightarrow> article list" where
  "contribution fetch_feed parse src = sources_loop fetch_feed parse [src] []"

text \<open>The first loop's test on one article, once its comparisons have not raised.\<close>

definition passes ::
  "datetime \<Rightarrow> datetime \<Rightarrow> string set \<Rightarrow> string set \<Rightarrow> (string \<rightharpoonup> string) \<Rightarrow> article \<Rightarrow> bool" where
  "passes start_date end_date allowed_sources allowed_regions m a \<longleftrightarrow>
     between start_date (published a) end_date = Inr True
     \<and> (allowed_sources = {} \<or> source a \<in> allowed_sources)
     \<and> (allowed_regions = {} \<or> region_of m a \<in> allowed_regions)"

text \<open>The two orders of articles that a comparison of timestamps can follow: by calendar
  reading and by instant.\<close>

definition by_wall :: "article \<Rightarrow> int" where
  "by_wall a = wall (published a)"

definition by_instant :: "article \<Rightarrow> int" where
  "by_instant a = instant (published a)"

text \<open>What \<^verbatim>\<open>str.lower\<close> does to a string of ASCII characters: the capitals \<open>A\<close> to \<open>Z\<close>
  (65 to 90) move up by 32, everything else stays.\<close>

definition ascii_lower :: "char \<Rightarrow> char" where
  "ascii_lower c =
     (if 65 \<le> (of_char c :: nat) \<and> (of_char c :: nat) \<le> 90 then char_of (of_char c + 32 :: nat)
      else c)"

text \<open>Case-insensitive substring, said without lowering either string: some contiguous piece
  of \<open>s\<close> is \<open>q\<close> character by character, where two characters agree when they are equal
  or are the capital and the small form of one of the twenty-six letters.\<close>

definition ascii_uppercase :: string where
  "ascii_uppercase = ''ABCDEFGHIJKLMNOPQRSTUVWXYZ''"

definition ascii_lowercase :: string where
  "ascii_lowercase = ''abcdefghijklmnopqrstuvwxyz''"

definition caseless :: "char \<Rightarrow> char \<Rightarrow> bool" where
  "caseless c d \<longleftrightarrow>
     c = d \<or> (c, d) \<in> set (zip ascii_uppercase ascii_lowercase)
           \<or> (d, c) \<in> set (zip ascii_uppercase ascii_lowercase)"

definition ci_substring :: "string \<Rightarrow> string \<Rightarrow> bool" where
  "ci_substring q s \<longleftrightarrow> (\<exists>u\<in>set (sublists s). list_all2 caseless q u)"

subsection \<open>Sample inputs\<close>




text \<open>One feed with three entries, the first and the last published at the same time.\<close>

definition sample_entry :: "string \<Rightarrow> string \<Rightarrow> int list \<Rightarrow> raw_entry" where
  "sample_entry t l parsed = \<lparr>e_title = Some t, e_link = Some l,
     e_published = None, e_updated = None, e_pubDate = None, e_dc_date = None,
     e_published_parsed = Some parsed, e_updated_parsed = None,
     e_author = None, e_authors = None, e_summary = None, e_description = None\<rparr>"

definition one_source :: "source_item list" where
  "one_source =
     [\<lparr>src_name = Some ''S'', src_url = Some ''http://s.example/feed'', src_region = None\<rparr>]"

definition fetch_three :: "string \<Rightarrow> error + raw_entry list" where
  "fetch_three url =
     Inr [sample_entry ''X'' ''http://s.example/x'' [2024, 6, 1, 0, 0, 0, 5, 153, 0],
          sample_entry ''Y'' ''http://s.example/y'' [2024, 6, 2, 0, 0, 0, 6, 154, 0],
          sample_entry ''Z'' ''http://s.example/z'' [2024, 6, 1, 0, 0, 0, 5, 153, 0]]"

definition sample_article :: "string \<Rightarrow> string \<Rightarrow> string \<Rightarrow> datetime \<Rightarrow> article" where
  "sample_article t l s p =
     \<lparr>title = t, link = l, source = s, published = p, authors = None, summary = None\<rparr>"

text \<open>Entries whose only date is the free-text \<^verbatim>\<open>published\<close> field, and a date-text parser
  that knows three texts: a naive one, the same with an explicit UTC mark, and the first
  instant of year 1 written one hour east of UTC.\<close>

definition text_entry :: "string \<Rightarrow> string \<Rightarrow> string \<Rightarrow> raw_entry" where
  "text_entry t l p = \<lparr>e_title = Some t, e_link = Some l,
     e_published = Some p, e_updated = None, e_pubDate = None, e_dc_date = None,
     e_published_parsed = None, e_updated_parsed = None,
     e_author = None, e_authors = None, e_summary = None, e_description = None\<rparr>"

definition parse_date_sample :: "string \<Rightarrow> datetime option" where
  "parse_date_sample s =
     (if s = ''2024-01-01T00:00:00'' then Some \<lparr>wall = 63839664000000000, tzinfo = None\<rparr>
      else if s = ''2024-01-01T00:00:00Z'' then Some \<lparr>wall = 63839664000000000, tzinfo = Some TzUTC\<rparr>
      else if s = ''0001-01-01T00:00:00+01:00''
        then Some \<lparr>wall = 0, tzinfo = Some (TzOffset 3600000000)\<rparr>
      else None)"

text \<open>Feeds whose second entry carries a date at the edge of the range of
  \<^verbatim>\<open>datetime\<close>.\<close>

definition fetch_overflow :: "string \<Rightarrow> error + raw_entry list" where
  "fetch_overflow url =
     Inr [sample_entry ''X'' ''http://s.example/x'' [2024, 6, 1, 0, 0, 0, 5, 153, 0],
          sample_entry ''Old'' ''http://s.example/old'' [1, 1, 1, 0, 0, 0, 0, 1, 0],
          sample_entry ''Y'' ''http://s.example/y'' [2024, 6, 2, 0, 0, 0, 6, 154, 0]]"

definition fetch_overflow_text :: "string \<Rightarrow> error + raw_entry list" where
  "fetch_overflow_text url =
     Inr [text_entry ''X'' ''http://s.example/x'' ''2024-01-01T00:00:00Z'',
          text_entry ''Old'' ''http://s.example/old'' ''0001-01-01T00:00:00+01:00'',
          text_entry ''Y'' ''http://s.example/y'' ''2024-01-01T00:00:00'']"

text \<open>A registry with an item whose feed cannot be fetched, an item without URL and a
  third whose feed is \<open>fetch_overflow\<close>.\<close>

definition src_down :: source_item where
  "src_down = \<lparr>src_name = Some ''Down'', src_url = Some ''http://down.example/feed'',
     src_region = None\<rparr>"

definition src_no_url :: source_item where
  "src_no_url = \<lparr>src_name = Some ''NoUrl'', src_url = None, src_region = None\<rparr>"

definition src_S :: source_item where
  "src_S = \<lparr>src_name = Some ''S'', src_url = Some ''http://s.example/feed'',
     src_region = None\<rparr>"

definition fetch_mixed :: "string \<Rightarrow> error + raw_entry list" where
  "fetch_mixed url =
     (if url = ''http://down.example/feed'' then Inl FetchError else fetch_overflow url)"

text \<open>A week's window in a process one hour east of UTC, and five articles around it: one
  stored with the very value of the window's start, one stored in UTC at the instant of the
  start, one at the window's end, one a microsecond after the end and one a microsecond
  before the start.\<close>

definition window_start :: datetime where
  "window_start = \<lparr>wall = 63852796800000000, tzinfo = Some (TzLocal 3600000000)\<rparr>"

definition window_end :: datetime where
  "window_end = \<lparr>wall = 63853401599999999, tzinfo = Some (TzLocal 3600000000)\<rparr>"

definition fa1 :: article where
  "fa1 = \<lparr>title = ''OpenAI ships a model'', link = ''http://o.example/1'',
     source = ''OpenAI Blog'', published = window_start, authors = None, summary = None\<rparr>"

definition fa2 :: article where
  "fa2 = \<lparr>title = ''Weekly notes'', link = ''http://d.example/2'', source = ''DeepMind'',
     published = \<lparr>wall = 63852793200000000, tzinfo = Some TzUTC\<rparr>, authors = None,
     summary = Some ''Progress in AI safety''\<rparr>"

definition fa3 :: article where
  "fa3 = \<lparr>title = ''Robots'', link = ''http://u.example/3'', source = ''Unlisted'',
     published = window_end, authors = None, summary = Some ''''\<rparr>"

definition fa4 :: article where
  "fa4 = \<lparr>title = ''Too late'', link = ''http://o.example/4'', source = ''OpenAI Blog'',
     published = \<lparr>wall = 63853401600000000, tzinfo = Some (TzLocal 3600000000)\<rparr>,
     authors = None, summary = None\<rparr>"

definition fa5 :: article where
  "fa5 = \<lparr>title = ''Too early'', link = ''http://o.example/5'', source = ''OpenAI Blog'',
     published = \<lparr>wall = 63852793199999999, tzinfo = Some TzUTC\<rparr>,
     authors = None, summary = None\<rparr>"

text \<open>
  Two Greek words in UTF-8: the capitals omicron, sigma (\<open>CE 9F CE A3\<close>) and omicron, sigma,
  omicron. \<^verbatim>\<open>str.lower\<close> turns the first into omicron, final sigma (\<open>CE BF CF 82\<close>) and the
  second into omicron, sigma, omicron (\<open>CE BF CF 83 CE BF\<close>). \<open>lower_sample\<close> is
  \<^verbatim>\<open>str.lower\<close> on these two words and on ASCII text.
\<close>

definition greek_os :: string where
  "greek_os = [CHR 0xCE, CHR 0x9F, CHR 0xCE, CHR 0xA3]"

definition greek_oso :: string where
  "greek_oso = [CHR 0xCE, CHR 0x9F, CHR 0xCE, CHR 0xA3, CHR 0xCE, CHR 0x9F]"

definition lower_sample :: "string \<Rightarrow> string" where
  "lower_sample s =
     (if s = greek_os then [CHR 0xCE, CHR 0xBF, CHR 0xCF, CHR 0x82]
      else if s = greek_oso then [CHR 0xCE, CHR 0xBF, CHR 0xCF, CHR 0x83, CHR 0xCE, CHR 0xBF]
      else map ascii_lower s)"

definition greek_article :: article where
  "greek_article = \<lparr>title = greek_oso, link = ''http://g.example/1'', source = ''DeepMind'',
     published = window_start, authors = None, summary = None\<rparr>"

definition sample_regions :: "string \<rightharpoonup> string" where
  "sample_regions =
     map_of [(''OpenAI Blog'', ''North America''), (''DeepMind'', ''Europe'')]"

text \<open>Twenty articles, one per hour, all inside the last thirty days of a clock that reads
  2024-06-30T00:00:00 UTC in a process one hour east of UTC.\<close>

definition batch_article :: "nat \<Rightarrow> article" where
  "batch_article i =
     sample_article ''T'' ''L'' ''S''
       \<lparr>wall = 63852796800000000 + int i * 3600000000, tzinfo = Some (TzLocal 3600000000)\<rparr>"

definition batch_articles :: "article list" where
  "batch_articles = map batch_article [0..<20]"

text \<open>The same with one article a microsecond after the end of the window in front and one a
  microsecond before its start behind.\<close>

definition batch_input :: "article list" where
  "batch_input =
     sample_article ''Late'' ''L'' ''S''
       \<lparr>wall = 63855306000000001, tzinfo = Some (TzLocal 3600000000)\<rparr>
     # batch_articles
     @ [sample_article ''Early'' ''L'' ''S''
          \<lparr>wall = 63852713999999999, tzinfo = Some (TzLocal 3600000000)\<rparr>]"

text \<open>
  A process in the zone of New York on 2024-11-03, when the clocks go back from 02:00 to
  01:00 at 06:00 UTC (four hours behind UTC before, five after), and a feed with an entry
  of 05:30 UTC and one of 06:10 UTC.
\<close>

definition tzl_fold :: "int \<Rightarrow> int" where
  "tzl_fold u = (if u < 63866210400000000 then - 14400000000 else - 18000000000)"

definition tzw_fold :: "int \<Rightarrow> int" where
  "tzw_fold w = (if w < 63866196000000000 then - 14400000000 else - 18000000000)"

definition fetch_fold :: "string \<Rightarrow> error + raw_entry list" where
  "fetch_fold url =
     Inr [sample_entry ''Before'' ''http://s.example/before'' [2024, 11, 3, 5, 30, 0, 6, 308, 0],
          sample_entry ''After'' ''http://s.example/after'' [2024, 11, 3, 6, 10, 0, 6, 308, 0]]"

text \<open>The state of the world once \<^verbatim>\<open>main\<close> has written the digest and printed the three
  lines that say so.\<close>

definition digest_world :: "string \<Rightarrow> string \<Rightarrow> world \<Rightarrow> world" where
  "digest_world html csv w =
     print ''Wrote: docs/index.html (for GitHub Pages)''
       (print ''Wrote: dist/newsletter.csv''
         (print ''Wrote: dist/newsletter.html''
           (write_text (''docs'', ''index.html'') html
             (write_text (''dist'', ''newsletter.csv'') csv
               (write_text (''dist'', ''newsletter.html'') html w)))))"

text \<open>A run in which every feed of the registry answers with the three entries of
  \<open>fetch_three\<close>, with and without a recipient.\<close>

definition sample_externals :: externals where
  "sample_externals =
     \<lparr>x_fetch_feed = fetch_three, x_parse_date = (\<lambda>_. None), x_tzl = (\<lambda>_. 3600000000),
      x_tzw = (\<lambda>_. 3600000000),
      x_clock = 63855302400000000,
      x_int = (\<lambda>s. if s = ''7'' then Some 7 else if s = ''30'' then Some 30 else None),
      x_render_html = (\<lambda>articles days summary'. ''<html>'' @ summary' @ ''</html>''),
      x_csv = (\<lambda>articles. ''title,source,published,link,authors''),
      x_smtp = (\<lambda>sender password msg. True)\<rparr>"

definition env_no_recipient :: environ where
  "env_no_recipient = \<lparr>PERIOD_DAYS = Some ''30'', RECIPIENT_EMAIL = None,
     EMAIL_SENDER = None, EMAIL_PASSWORD = None\<rparr>"

definition env_no_password :: environ where
  "env_no_password = \<lparr>PERIOD_DAYS = Some ''30'', RECIPIENT_EMAIL = Some ''reader@example.org'',
     EMAIL_SENDER = Some ''digest@example.org'', EMAIL_PASSWORD = None\<rparr>"

definition empty_world :: world where
  "empty_world = \<lparr>files = Map.empty, stdout = [], outbox = []\<rparr>"

definition sample_recent :: "article list" where
  "sample_recent =
     [sample_article ''Y'' ''http://s.example/y'' ''OpenAI Blog''
        \<lparr>wall = 63852886800000000, tzinfo = Some (TzLocal 3600000000)\<rparr>,
      sample_article ''X'' ''http://s.example/x'' ''OpenAI Blog''
        \<lparr>wall = 63852800400000000, tzinfo = Some (TzLocal 3600000000)\<rparr>,
      sample_article ''Z'' ''http://s.example/z'' ''OpenAI Blog''
        \<lparr>wall = 63852800400000000, tzinfo = Some (TzLocal 3600000000)\<rparr>]"

subsection \<open>The order of the date candidates, in the specification's words\<close>

text \<open>The first candidate that yields a date wins. A text candidate is a field that is
  present, not empty and accepted by the date-text parser; a structured candidate is a
  time breakdown that is present and accepted by the constructor.\<close>

fun first_success :: "'a option list \<Rightarrow> 'a option" where
  "first_success [] = None"
| "first_success (Some x # cs) = Some x"
| "first_success (None # cs) = first_success cs"

definition from_text :: "(string \<Rightarrow> datetime option) \<Rightarrow> string option \<Rightarrow> datetime option" where
  "from_text parse_date v = (if truthy v then parse_date (the v) else None)"

text \<open>An entry whose only date-bearing field is the structured \<^verbatim>\<open>updated_parsed\<close>, and a
  feed that holds it.\<close>

definition updated_parsed_only :: raw_entry where
  "updated_parsed_only = \<lparr>e_title = Some ''U'', e_link = Some ''http://s.example/u'',
     e_published = None, e_updated = None, e_pubDate = None, e_dc_date = None,
     e_published_parsed = None, e_updated_parsed = Some [2024, 6, 1, 12, 0, 0, 5, 153, 0],
     e_author = None, e_authors = None, e_summary = None, e_description = None\<rparr>"

definition fetch_updated :: "string \<Rightarrow> error + raw_entry list" where
  "fetch_updated url = Inr [updated_parsed_only]"

section \<open>Lemmas\<close>




lemma dedupe_loop_subseq: "subseq (dedupe_loop S xs) xs"
  by (induction xs arbitrary: S) (auto simp: Let_def)

lemma mset_sort_published_desc: "mset (sort_published_desc xs) = mset xs"
  by (simp add: sort_published_desc_def)

lemma set_sort_published_desc: "set (sort_published_desc xs) = set xs"
  by (simp add: sort_published_desc_def)


lemma sorted_sort_published_desc:
  "sorted_wrt (\<lambda>a b. wall (published b) \<le> wall (published a)) (sort_published_desc xs)"
proof -
  have "sorted (map (\<lambda>a. wall (published a)) (sort_key (\<lambda>a. wall (published a)) (rev xs)))"
    by simp
  then have "sorted_wrt (\<lambda>a b. wall (published a) \<le> wall (published b)) (sort_key (\<lambda>a. wall (published a)) (rev xs))"
    by (simp add: sorted_map)
  then show ?thesis
    by (simp add: sort_published_desc_def sorted_wrt_rev)
qed

lemma stable_sort_published_desc:
  "filter (\<lambda>a. wall (published a) = k) (sort_published_desc xs) = filter (\<lambda>a. wall (published a) = k) xs"
proof -
  have "filter (\<lambda>a. wall (published a) = k) (sort_key (\<lambda>a. wall (published a)) (rev xs))
      = filter (\<lambda>a. wall (published a) = k) (rev xs)"
    by (rule sort_key_stable)
  then show ?thesis
    by (simp add: sort_published_desc_def rev_filter [symmetric])
qed

lemma same_tzinfo_UTC: "same_tzinfo TzUTC z \<longleftrightarrow> z = TzUTC"
  by (cases z) auto

lemma same_tzinfo_Local: "same_tzinfo (TzLocal j) z \<longleftrightarrow> (\<exists>k. z = TzLocal k)"
  by (cases z) auto

lemma to_utc_result:
  assumes "to_utc dt = Inr p"
  shows "tzinfo p = Some TzUTC \<and> instant p = instant dt"
  using assms
  by (auto simp: to_utc_def astimezone_utc_def instant_def same_tzinfo_UTC Let_def
           split: option.splits if_splits)

lemma to_local_result:
  assumes "to_local tzl dt = Inr p"
  shows "(\<exists>k. tzinfo p = Some (TzLocal k)) \<and> instant p = instant dt"
  using assms
  by (auto simp: to_local_def astimezone_local_def instant_def same_tzinfo_Local Let_def
           split: option.splits if_splits)

lemma build_article_fields:
  assumes "build_article conv e s d = Inr (Some a)"
  shows "conv d = Inr (published a)"
    and "source a = s"
    and "title a = (case e_title e of None \<Rightarrow> ''(no title)'' | Some t \<Rightarrow> t)"
    and "link a = (if truthy (e_link e) then the (e_link e) else [])"
    and "authors a = resolve_authors e"
    and "summary a = first_truthy e [''summary'', ''description'']"
  using assms by (auto simp: build_article_def Let_def split: sum.splits)

lemma build_article_None: "build_article conv e s d \<noteq> Inr None"
  by (auto simp: build_article_def Let_def split: sum.splits)

lemma app_parse_entry_Some:
  assumes "app_parse_entry pd e s = Inr (Some a)"
  shows "\<exists>d. app_resolve_date pd e = Some d \<and> to_utc d = Inr (published a)"
  using assms build_article_fields(1)
  by (fastforce simp: app_parse_entry_def split: option.splits)

lemma weekly_parse_entry_Some:
  assumes "weekly_parse_entry pd tzl e s = Inr (Some a)"
  shows "\<exists>d. weekly_resolve_date pd e = Some d \<and> to_local tzl d = Inr (published a)"
  using assms build_article_fields(1)
  by (fastforce simp: weekly_parse_entry_def split: option.splits)

lemma entries_loop_append:
  "entries_loop parse n es acc =
     (acc @ fst (entries_loop parse n es []), snd (entries_loop parse n es []))"
proof (induction es arbitrary: acc)
  case Nil
  show ?case by simp
next
  case (Cons e es)
  show ?case
  proof (cases "parse e n")
    case (Inl err)
    then show ?thesis by simp
  next
    case (Inr r)
    show ?thesis
    proof (cases r)
      case None
      with Inr Cons.IH [of acc] show ?thesis by simp
    next
      case (Some art)
      with Inr Cons.IH [of "acc @ [art]"] Cons.IH [of "[art]"] show ?thesis by simp
    qed
  qed
qed

lemma entries_loop_normalized:
  "fst (entries_loop parse n es acc) = acc @ normalized parse n es"
proof (induction es arbitrary: acc)
  case Nil
  show ?case by (simp add: normalized_def map_filter_simps)
next
  case (Cons e es)
  show ?case
  proof (cases "parse e n")
    case (Inl err)
    then show ?thesis by (simp add: normalized_def map_filter_simps)
  next
    case (Inr r)
    then show ?thesis
      by (cases r) (simp_all add: Cons.IH normalized_def map_filter_simps)
  qed
qed

lemma sources_loop_concat:
  "sources_loop f p srcs acc = acc @ concat (map (contribution f p) srcs)"
proof (induction srcs arbitrary: acc)
  case Nil
  show ?case by simp
next
  case (Cons src srcs)
  show ?case
    by (simp add: Cons.IH contribution_def Let_def entries_loop_normalized split: sum.splits)
qed

lemma contribution_cases:
  "contribution f p src =
     (if \<not> truthy (src_url src) then []
      else case f (the (src_url src)) of
             Inl err \<Rightarrow> []
           | Inr entries \<Rightarrow>
               normalized p (the (if truthy (src_name src) then src_name src else src_url src)) entries)"
  by (simp add: contribution_def Let_def entries_loop_normalized split: sum.splits)

lemma entries_loop_inv:
  assumes "\<And>e a. parse e n = Inr (Some a) \<Longrightarrow> P a" and "\<forall>a\<in>set acc. P a"
  shows "\<forall>a\<in>set (fst (entries_loop parse n es acc)). P a"
  using assms(2)
proof (induction es arbitrary: acc)
  case Nil
  then show ?case by simp
next
  case (Cons e es)
  show ?case
  proof (cases "parse e n")
    case (Inl err)
    with Cons.prems show ?thesis by simp
  next
    case (Inr r)
    show ?thesis
    proof (cases r)
      case None
      with Inr Cons show ?thesis by simp
    next
      case (Some art)
      with Inr assms(1) have "P art" by simp
      with Cons.prems have "\<forall>a\<in>set (acc @ [art]). P a" by simp
      from Cons.IH [OF this] Inr Some show ?thesis by simp
    qed
  qed
qed

lemma sources_loop_inv:
  assumes "\<And>e n a. parse e n = Inr (Some a) \<Longrightarrow> P a" and "\<forall>a\<in>set acc. P a"
  shows "\<forall>a\<in>set (sources_loop f parse srcs acc). P a"
  using assms(2)
proof (induction srcs arbitrary: acc)
  case Nil
  then show ?case by simp
next
  case (Cons src srcs)
  show ?case
  proof (cases "truthy (src_url src)")
    case False
    with Cons show ?thesis by (simp add: Let_def)
  next
    case True
    show ?thesis
    proof (cases "f (the (src_url src))")
      case (Inl err)
      with True Cons show ?thesis by (simp add: Let_def)
    next
      case (Inr entries)
      have "\<forall>a\<in>set (fst (entries_loop parse
               (the (if truthy (src_name src) then src_name src else src_url src)) entries acc)). P a"
        by (rule entries_loop_inv) (use assms(1) Cons.prems in auto)
      from Cons.IH [OF this] True Inr show ?thesis by (simp add: Let_def)
    qed
  qed
qed

lemma set_dedupe_loop_subset: "set (dedupe_loop S xs) \<subseteq> set xs"
  by (induction xs arbitrary: S) (auto simp: Let_def)

lemma set_finish_subset: "set (finish xs) \<subseteq> set xs"
  using set_dedupe_loop_subset [of "{}" xs] by (simp add: finish_def set_sort_published_desc)

lemma app_published_utc:
  "\<forall>a\<in>set (sources_loop f (app_parse_entry pd) srcs []). tzinfo (published a) = Some TzUTC"
proof (rule sources_loop_inv)
  fix e n a assume "app_parse_entry pd e n = Inr (Some a)"
  then show "tzinfo (published a) = Some TzUTC"
    using app_parse_entry_Some to_utc_result by blast
qed simp

lemma weekly_published_local:
  "\<forall>a\<in>set (sources_loop f (weekly_parse_entry pd tzl) srcs []). \<exists>k. tzinfo (published a) = Some (TzLocal k)"
proof (rule sources_loop_inv)
  fix e n a assume "weekly_parse_entry pd tzl e n = Inr (Some a)"
  then show "\<exists>k. tzinfo (published a) = Some (TzLocal k)"
    using weekly_parse_entry_Some to_local_result by blast
qed simp

lemma dt_le_same_zone:
  assumes "tzinfo a = Some x" "tzinfo b = Some y" "same_tzinfo x y"
  shows "dt_le a b = Inr (wall a \<le> wall b)"
  using assms by (simp add: dt_le_def)

lemma sorted_desc_python:
  assumes "\<forall>a\<in>set xs. \<exists>x. tzinfo (published a) = Some x \<and> same_tzinfo z x"
  shows "sorted_wrt (\<lambda>a b. dt_le (published b) (published a) = Inr True) (finish xs)"
proof -
  have sw: "sorted_wrt (\<lambda>a b. wall (published b) \<le> wall (published a)) (finish xs)"
    by (simp add: finish_def sorted_sort_published_desc)
  show ?thesis
  proof (rule sorted_wrt_mono_rel [OF _ sw])
    fix a b assume a: "a \<in> set (finish xs)" and b: "b \<in> set (finish xs)"
      and le: "wall (published b) \<le> wall (published a)"
    from a b set_finish_subset have "a \<in> set xs" "b \<in> set xs" by blast+
    with assms obtain x y where x: "tzinfo (published a) = Some x" "same_tzinfo z x"
      and y: "tzinfo (published b) = Some y" "same_tzinfo z y" by blast
    have "same_tzinfo y x" using x(2) y(2) by (cases z; cases x; cases y) auto
    with x y le show "dt_le (published b) (published a) = Inr True"
      by (simp add: dt_le_same_zone)
  qed
qed

lemma between_True:
  "between s p e = Inr True \<longleftrightarrow> dt_le s p = Inr True \<and> dt_le p e = Inr True"
  by (auto simp: between_def split: sum.splits bool.splits)

lemma dt_le_aware:
  assumes "tzinfo a \<noteq> None" "tzinfo b \<noteq> None"
  shows "\<exists>r. dt_le a b = Inr r"
  using assms by (auto simp: dt_le_def)

lemma between_aware:
  assumes "tzinfo s \<noteq> None" "tzinfo p \<noteq> None" "tzinfo e \<noteq> None"
  shows "\<exists>r. between s p e = Inr r"
proof -
  from dt_le_aware [OF assms(1,2)] obtain r1 where r1: "dt_le s p = Inr r1" by blast
  from dt_le_aware [OF assms(2,3)] obtain r2 where r2: "dt_le p e = Inr r2" by blast
  show ?thesis using r1 r2 by (cases r1) (auto simp: between_def)
qed

lemma dt_le_refl: "tzinfo a \<noteq> None \<Longrightarrow> dt_le a a = Inr True"
  by (auto simp: dt_le_def)

lemma filter_loop_Inr:
  assumes "filter_loop s e S R m xs = Inr r"
  shows "r = filter (passes s e S R m) xs"
  using assms
proof (induction xs arbitrary: r)
  case Nil
  then show ?case by simp
next
  case (Cons a as)
  from Cons.prems obtain inside where b: "between s (published a) e = Inr inside"
    by (auto split: sum.splits)
  from Cons.prems b obtain r' where r': "filter_loop s e S R m as = Inr r'"
    by (auto split: sum.splits)
  from Cons.IH [OF r'] have ih: "r' = filter (passes s e S R m) as" .
  have p: "passes s e S R m a \<longleftrightarrow>
      inside \<and> (S = {} \<or> source a \<in> S) \<and> (R = {} \<or> region_of m a \<in> R)"
    using b by (auto simp: passes_def)
  from Cons.prems b r' have eq: "Inr r =
      (if \<not> inside then Inr r'
       else if S \<noteq> {} \<and> source a \<notin> S then Inr r'
       else if R \<noteq> {} \<and> region_of m a \<notin> R then (Inr r' :: error + article list)
       else Inr (a # r'))"
    by simp
  have "r = (if passes s e S R m a then a # r' else r')"
  proof (cases "passes s e S R m a")
    case True
    with p eq show ?thesis by auto
  next
    case False
    with p eq show ?thesis by (auto split: if_splits)
  qed
  with ih show ?case by simp
qed

lemma filter_loop_total:
  assumes "\<forall>a\<in>set xs. \<exists>b. between s (published a) e = Inr b"
  shows "\<exists>r. filter_loop s e S R m xs = Inr r"
  using assms
proof (induction xs)
  case Nil
  show ?case by simp
next
  case (Cons a as)
  then obtain b r' where "between s (published a) e = Inr b" "filter_loop s e S R m as = Inr r'"
    by auto
  then show ?case by simp
qed

lemma apply_filters_Inr:
  assumes "apply_filters lower xs s e S R m q = Inr r"
  shows "r = filter (\<lambda>a. passes s e S R m a \<and> (q = [] \<or> query_matches lower (lower q) a)) xs"
proof -
  from assms obtain f where f: "filter_loop s e S R m xs = Inr f"
    by (auto simp: apply_filters_def split: sum.splits)
  from filter_loop_Inr [OF f] have f': "f = filter (passes s e S R m) xs" .
  show ?thesis
  proof (cases "q = []")
    case True
    with assms f have "r = f" by (simp add: apply_filters_def)
    with f' True show ?thesis by simp
  next
    case False
    with assms f have "r = filter (query_matches lower (lower q)) f"
      by (simp add: apply_filters_def)
    with f' False show ?thesis by (simp add: conj_commute)
  qed
qed

lemma map_of_letters:
  "\<forall>c::char. map_of (zip ascii_uppercase ascii_lowercase) c =
     (if 65 \<le> (of_char c :: nat) \<and> (of_char c :: nat) \<le> 90
      then Some (char_of (of_char c + 32 :: nat)) else None)"
  by code_simp

lemma distinct_uppercase: "distinct (map fst (zip ascii_uppercase ascii_lowercase))"
  by code_simp

lemma letters_iff:
  "(c, d) \<in> set (zip ascii_uppercase ascii_lowercase) \<longleftrightarrow>
     65 \<le> (of_char c :: nat) \<and> (of_char c :: nat) \<le> 90 \<and> d = char_of (of_char c + 32 :: nat)"
proof -
  have "(c, d) \<in> set (zip ascii_uppercase ascii_lowercase) \<longleftrightarrow>
      map_of (zip ascii_uppercase ascii_lowercase) c = Some d"
    using distinct_uppercase by simp
  then show ?thesis using map_of_letters by auto
qed

lemma of_char_shift:
  assumes "(of_char c :: nat) \<le> 90"
  shows "(of_char (char_of (of_char c + 32 :: nat) :: char) :: nat) = of_char c + 32"
  using assms by simp

lemma caseless_ascii_lower: "caseless c d \<longleftrightarrow> ascii_lower c = ascii_lower d"
proof -
  have inj: "c = d" if "char_of (of_char c + 32 :: nat) = (char_of (of_char d + 32 :: nat) :: char)"
    "(of_char c :: nat) \<le> 90" "(of_char d :: nat) \<le> 90" for c d :: char
  proof -
    from that(1) have "(of_char (char_of (of_char c + 32 :: nat) :: char) :: nat)
        = of_char (char_of (of_char d + 32 :: nat) :: char)" by simp
    with that(2,3) have "(of_char c :: nat) = of_char d"
      by (simp add: of_char_shift)
    then show ?thesis by simp
  qed
  have up: "\<not> ((of_char (char_of (of_char c + 32 :: nat) :: char) :: nat) \<le> 90)"
    if "65 \<le> (of_char c :: nat)" "(of_char c :: nat) \<le> 90" for c :: char
    using that by (simp add: of_char_shift)
  show ?thesis
    unfolding caseless_def letters_iff ascii_lower_def
    using inj up by (auto split: if_splits)
qed

lemma list_all2_caseless:
  "list_all2 caseless q u \<longleftrightarrow> map ascii_lower q = map ascii_lower u"
  by (induction q u rule: list_induct2') (simp_all add: caseless_ascii_lower)

lemma sublist_ascii_lower_iff:
  "sublist (map ascii_lower q) (map ascii_lower s) \<longleftrightarrow> ci_substring q s"
proof
  assume "sublist (map ascii_lower q) (map ascii_lower s)"
  then obtain u where u: "sublist u s" "map ascii_lower q = map ascii_lower u"
    using sublist_map_rightE by blast
  from u(2) have "list_all2 caseless q u"
    by (simp add: list_all2_caseless)
  with u(1) show "ci_substring q s" by (auto simp: ci_substring_def)
next
  assume "ci_substring q s"
  then obtain u where u: "sublist u s" "list_all2 caseless q u"
    by (auto simp: ci_substring_def)
  from u(2) have "map ascii_lower q = map ascii_lower u"
    by (simp add: list_all2_caseless)
  moreover have "sublist (map ascii_lower u) (map ascii_lower s)"
  proof -
    from u(1) obtain ps ss where "s = ps @ u @ ss" by (auto simp: sublist_def)
    then have "map ascii_lower s = map ascii_lower ps @ map ascii_lower u @ map ascii_lower ss"
      by simp
    then show ?thesis unfolding sublist_def by blast
  qed
  ultimately show "sublist (map ascii_lower q) (map ascii_lower s)" by simp
qed

lemma query_matches_iff:
  "query_matches lower q a \<longleftrightarrow>
     sublist q (lower (title a))
     \<or> (\<exists>t. summary a = Some t \<and> t \<noteq> [] \<and> sublist q (lower t))"
  by (auto simp: query_matches_def truthy_def split: option.splits)

lemma to_utc_value:
  assumes "to_utc dt = Inr p"
  shows "p = \<lparr>wall = instant dt, tzinfo = Some TzUTC\<rparr>"
  using assms
  by (auto simp: to_utc_def astimezone_utc_def instant_def same_tzinfo_UTC Let_def
           split: option.splits if_splits)

lemma to_local_value:
  assumes "to_local tzl dt = Inr p" "\<forall>j. tzinfo dt \<noteq> Some (TzLocal j)"
  shows "p = \<lparr>wall = instant dt + tzl (instant dt), tzinfo = Some (TzLocal (tzl (instant dt)))\<rparr>"
  using assms
  by (auto simp: to_local_def astimezone_local_def instant_def same_tzinfo_Local Let_def
           split: option.splits if_splits)

lemma dt_le_self: "dt_le a a = Inr True"
  by (auto simp: dt_le_def split: option.splits)

lemma ci_substring_Nil: "ci_substring q [] \<longleftrightarrow> q = []"
  by (auto simp: ci_substring_def)

lemma apply_filters_total:
  assumes "tzinfo s \<noteq> None" "tzinfo e \<noteq> None" "\<forall>a\<in>set xs. tzinfo (published a) \<noteq> None"
  shows "\<exists>r. apply_filters lower xs s e S R m q = Inr r"
proof -
  from assms have "\<forall>a\<in>set xs. \<exists>b. between s (published a) e = Inr b"
    using between_aware by blast
  from filter_loop_total [OF this] obtain f where "filter_loop s e S R m xs = Inr f" by blast
  then show ?thesis by (simp add: apply_filters_def)
qed

lemma filter_window_Inr:
  assumes "filter_window s e xs = Inr r"
  shows "r = filter (\<lambda>a. between s (published a) e = Inr True) xs"
  using assms
proof (induction xs arbitrary: r)
  case Nil
  then show ?case by simp
next
  case (Cons a as)
  from Cons.prems obtain inside where b: "between s (published a) e = Inr inside"
    by (auto split: sum.splits)
  from Cons.prems b obtain r' where r': "filter_window s e as = Inr r'"
    by (auto split: sum.splits)
  from Cons.IH [OF r'] have ih: "r' = filter (\<lambda>a. between s (published a) e = Inr True) as" .
  from Cons.prems b r' have "r = (if inside then a # r' else r')" by simp
  with ih b show ?case by simp
qed

lemma filter_window_total:
  assumes "\<forall>a\<in>set xs. \<exists>b. between s (published a) e = Inr b"
  shows "\<exists>r. filter_window s e xs = Inr r"
  using assms
proof (induction xs)
  case Nil
  show ?case by simp
next
  case (Cons a as)
  then obtain b r' where "between s (published a) e = Inr b" "filter_window s e as = Inr r'"
    by auto
  then show ?case by simp
qed

lemma take_most_recent:
  assumes "sorted_wrt P xs"
  shows "\<forall>a\<in>set (take n xs). \<forall>b\<in>#mset xs - mset (take n xs). P a b"
proof -
  from assms have "sorted_wrt P (take n xs @ drop n xs)" by simp
  then have *: "\<forall>a\<in>set (take n xs). \<forall>b\<in>set (drop n xs). P a b"
    unfolding sorted_wrt_append by blast
  have "mset xs = mset (take n xs) + mset (drop n xs)"
    by (metis append_take_drop_id mset_append)
  then have "mset xs - mset (take n xs) = mset (drop n xs)" by simp
  with * show ?thesis by simp
qed

lemma digest_world_files:
  "files (digest_world html csv w) (''dist'', ''newsletter.html'') = Some html"
  "files (digest_world html csv w) (''dist'', ''newsletter.csv'') = Some csv"
  "outbox (digest_world html csv w) = outbox w"
  "stdout (digest_world html csv w) = stdout w @ [''Wrote: dist/newsletter.html'',
      ''Wrote: dist/newsletter.csv'', ''Wrote: docs/index.html (for GitHub Pages)'']"
  by (simp_all add: digest_world_def print_def write_text_def)

lemma main_digest:
  assumes "x_int x (case PERIOD_DAYS env of None \<Rightarrow> ''7'' | Some v \<Rightarrow> v) = Some period_days"
    and "filter_last_days_top_n (x_tzl x) (x_tzw x) (x_clock x)
           (weekly_load_articles (x_fetch_feed x) (x_parse_date x) (x_tzl x) DEFAULT_SOURCES)
           period_days 10 = Inr recent"
    and "html = x_render_html x recent period_days (generate_summary recent)"
    and "csv = x_csv x recent"
  shows "main x env w =
     (let w6 = digest_world html csv w in
      if truthy (RECIPIENT_EMAIL env) then
        (case send_email x env ''Weekly AI Newsletter'' html (the (RECIPIENT_EMAIL env))
                [(''dist'', ''newsletter.html''), (''dist'', ''newsletter.csv'')] w6 of
           Inl err \<Rightarrow> (w6, Some err)
         | Inr w7 \<Rightarrow> (print (''Newsletter sent to '' @ the (RECIPIENT_EMAIL env)) w7, None))
      else
        (print ''No RECIPIENT_EMAIL environment variable set. Skipping email sending.'' w6, None))"
  unfolding main_def using assms by (simp add: Let_def digest_world_def)

lemma send_email_no_credentials:
  assumes "\<not> truthy (EMAIL_SENDER env) \<or> \<not> truthy (EMAIL_PASSWORD env)"
  shows "send_email x env subject body to_email attachments w =
     Inl (ValueError ''Please set EMAIL_SENDER and EMAIL_PASSWORD environment variables.'')"
  using assms by (auto simp: send_email_def Let_def)

lemma send_email_digest:
  assumes "truthy (EMAIL_SENDER env)" "truthy (EMAIL_PASSWORD env)"
  shows "send_email x env subject body to_email
           [(''dist'', ''newsletter.html''), (''dist'', ''newsletter.csv'')]
           (digest_world html csv w) =
     (let msg = \<lparr>msg_from = the (EMAIL_SENDER env), msg_to = to_email, msg_subject = subject,
                  msg_body = body,
                  msg_attachments = [(''newsletter.html'', html), (''newsletter.csv'', csv)]\<rparr>
      in if x_smtp x (the (EMAIL_SENDER env)) (the (EMAIL_PASSWORD env)) msg
         then Inr ((digest_world html csv w)\<lparr>outbox := outbox w @ [msg]\<rparr>)
         else Inl SMTPError)"
  using assms by (simp add: send_email_def Let_def digest_world_files)

lemma parse_first_Cons:
  "parse_first pd e (key # keys) =
     (case from_text pd (entry_get e key) of
        Some d \<Rightarrow> Some d
      | None \<Rightarrow> parse_first pd e keys)"
  by (simp add: from_text_def Let_def split: option.splits)

lemma first_success_Cons:
  "first_success (c # cs) = (case c of Some x \<Rightarrow> Some x | None \<Rightarrow> first_success cs)"
  by (cases c) simp_all

lemma entry_get_keys:
  "entry_get e ''published'' = e_published e"
  "entry_get e ''updated'' = e_updated e"
  "entry_get e ''pubDate'' = e_pubDate e"
  "entry_get e ''dc:date'' = e_dc_date e"
  by (simp_all add: entry_get_def)

lemma weekly_resolve_date_order:
  "weekly_resolve_date pd e =
     first_success
       [parse_struct (e_published_parsed e), from_text pd (e_published e),
        from_text pd (e_pubDate e), from_text pd (e_dc_date e),
        parse_struct (e_updated_parsed e), from_text pd (e_updated e)]"
  unfolding weekly_resolve_date_def parse_first_Cons first_success_Cons entry_get_keys
  by (simp split: option.splits)

lemma app_resolve_date_order:
  "app_resolve_date pd e =
     first_success
       [from_text pd (e_published e), from_text pd (e_updated e), from_text pd (e_pubDate e),
        from_text pd (e_dc_date e), parse_struct (e_published_parsed e)]"
  unfolding app_resolve_date_def parse_first_Cons first_success_Cons entry_get_keys
  by (simp split: option.splits)

lemma parse_entry_copies_agree:
  assumes "app_parse_entry pd e s = Inr (Some a)" "weekly_parse_entry pd tzl e s = Inr (Some b)"
  shows "title a = title b \<and> link a = link b \<and> source a = source b
       \<and> authors a = authors b \<and> summary a = summary b
       \<and> (app_resolve_date pd e = weekly_resolve_date pd e
            \<longrightarrow> instant (published a) = instant (published b))"
proof -
  from assms(1) obtain d where d: "app_resolve_date pd e = Some d"
    "build_article to_utc e s d = Inr (Some a)"
    by (auto simp: app_parse_entry_def split: option.splits)
  from assms(2) obtain d' where d': "weekly_resolve_date pd e = Some d'"
    "build_article (to_local tzl) e s d' = Inr (Some b)"
    by (auto simp: weekly_parse_entry_def split: option.splits)
  note fa = build_article_fields [OF d(2)] and fb = build_article_fields [OF d'(2)]
  have "instant (published a) = instant d" using to_utc_result fa(1) by blast
  moreover have "instant (published b) = instant d'" using to_local_result fb(1) by blast
  ultimately show ?thesis using d(1) d'(1) fa(2-6) fb(2-6) by simp
qed

lemma insort_key_last:
  fixes k :: "'a \<Rightarrow> 'b::linorder"
  assumes "\<forall>z\<in>set zs. k z < k y"
  shows "insort_key k y zs = zs @ [y]"
  using assms by (induction zs) auto

lemma sort_key_strict_desc:
  fixes k :: "'a \<Rightarrow> 'b::linorder"
  assumes "sorted_wrt (\<lambda>a b. k b < k a) ys"
  shows "sort_key k ys = rev ys"
  using assms
proof (induction ys)
  case Nil
  show ?case by simp
next
  case (Cons y ys)
  then have "sort_key k ys = rev ys" and "\<forall>z\<in>set ys. k z < k y" by auto
  then show ?case by (simp add: insort_key_last)
qed

lemma run_asc_sorted:
  fixes k :: "'a \<Rightarrow> 'b::linorder"
  assumes "\<forall>a\<in>set (p # xs). \<forall>b\<in>set (p # xs). lt a b \<longleftrightarrow> k a < k b"
  shows "sorted (map k (p # take (run_asc lt p xs) xs))"
  using assms
proof (induction xs arbitrary: p)
  case Nil
  show ?case by simp
next
  case (Cons x xs)
  show ?case
  proof (cases "lt x p")
    case True
    then show ?thesis by simp
  next
    case False
    with Cons.prems have le: "k p \<le> k x" by (simp add: not_less)
    have "sorted (map k (x # take (run_asc lt x xs) xs))"
      by (rule Cons.IH) (use Cons.prems in auto)
    with le False show ?thesis by (auto dest: in_set_takeD)
  qed
qed

lemma run_desc_sorted:
  fixes k :: "'a \<Rightarrow> 'b::linorder"
  assumes "\<forall>a\<in>set (p # xs). \<forall>b\<in>set (p # xs). lt a b \<longleftrightarrow> k a < k b"
  shows "sorted_wrt (\<lambda>a b. k b < k a) (p # take (run_desc lt p xs) xs)"
  using assms
proof (induction xs arbitrary: p)
  case Nil
  show ?case by simp
next
  case (Cons x xs)
  show ?case
  proof (cases "lt x p")
    case False
    then show ?thesis by simp
  next
    case True
    with Cons.prems have le: "k x < k p" by simp
    have "sorted_wrt (\<lambda>a b. k b < k a) (x # take (run_desc lt x xs) xs)"
      by (rule Cons.IH) (use Cons.prems in auto)
    with le True show ?thesis by (auto dest: in_set_takeD)
  qed
qed

lemma count_run_sorted:
  fixes k :: "'a \<Rightarrow> 'b::linorder"
  assumes "\<forall>a\<in>set xs. \<forall>b\<in>set xs. lt a b \<longleftrightarrow> k a < k b"
    and "count_run lt xs = (n, d)"
  shows "sort_key k (take n xs) = (if d then rev (take n xs) else take n xs)"
proof (cases xs)
  case Nil
  with assms(2) show ?thesis by simp
next
  case (Cons x ys)
  show ?thesis
  proof (cases ys)
    case Nil
    with Cons assms(2) show ?thesis by auto
  next
    case (Cons y zs)
    note xs = \<open>xs = x # ys\<close> Cons
    have rep: "\<forall>a\<in>set (y # zs). \<forall>b\<in>set (y # zs). lt a b \<longleftrightarrow> k a < k b"
      using assms(1) xs by simp
    show ?thesis
    proof (cases "lt y x")
      case True
      with assms(2) xs have n: "n = 2 + run_desc lt y zs" and d: d by auto
      from True assms(1) xs have "k y < k x" by simp
      moreover have "sorted_wrt (\<lambda>a b. k b < k a) (y # take (run_desc lt y zs) zs)"
        by (rule run_desc_sorted [OF rep])
      ultimately have "sorted_wrt (\<lambda>a b. k b < k a) (take n xs)"
        unfolding n xs by (auto dest: in_set_takeD)
      from sort_key_strict_desc [OF this] d show ?thesis by simp
    next
      case False
      with assms(2) xs have n: "n = 2 + run_asc lt y zs" and d: "\<not> d" by auto
      from False assms(1) xs have "k x \<le> k y" by (simp add: not_less)
      moreover have "sorted (map k (y # take (run_asc lt y zs) zs))"
        by (rule run_asc_sorted [OF rep])
      ultimately have "sorted (map k (take n xs))"
        unfolding n xs by (auto dest: in_set_takeD)
      from sort_key_id_if_sorted [OF this] d show ?thesis by simp
    qed
  qed
qed

lemma count_run_le: "count_run lt xs = (n, d) \<Longrightarrow> n \<le> length xs"
proof -
  have a: "run_asc lt p ys \<le> length ys" for p ys
    by (induction ys arbitrary: p) auto
  have b: "run_desc lt p ys \<le> length ys" for p ys
    by (induction ys arbitrary: p) auto
  assume c: "count_run lt xs = (n, d)"
  show ?thesis
  proof (cases xs)
    case Nil
    with c show ?thesis by simp
  next
    case (Cons x ys)
    show ?thesis
    proof (cases ys)
      case Nil
      with Cons c show ?thesis by auto
    next
      case (Cons y zs)
      with \<open>xs = x # ys\<close> c a [of y zs] b [of y zs] show ?thesis
        by (auto split: if_splits)
    qed
  qed
qed

lemma bisect_split:
  fixes k :: "'a \<Rightarrow> 'b::linorder"
  assumes "l \<le> r" "r \<le> length xs" "sorted (map k xs)"
    and "\<forall>i<length xs. lt pivot (xs ! i) \<longleftrightarrow> k pivot < k (xs ! i)"
    and "\<forall>i<l. k (xs ! i) \<le> k pivot"
    and "\<forall>i. r \<le> i \<and> i < length xs \<longrightarrow> k pivot < k (xs ! i)"
  shows "bisect lt pivot xs l r \<le> length xs
       \<and> (\<forall>i<bisect lt pivot xs l r. k (xs ! i) \<le> k pivot)
       \<and> (\<forall>i. bisect lt pivot xs l r \<le> i \<and> i < length xs \<longrightarrow> k pivot < k (xs ! i))"
  using assms
proof (induction lt pivot xs l r rule: bisect.induct)
  case (1 lt pivot xs l r)
  have mono: "k (xs ! i) \<le> k (xs ! j)" if "i \<le> j" "j < length xs" for i j
    using "1.prems"(3) that by (simp add: sorted_iff_nth_mono)
  show ?case
  proof (cases "l < r")
    case False
    with "1.prems" have "l = r" by simp
    moreover have "bisect lt pivot xs l r = l"
      using False by (subst bisect.simps) simp
    ultimately show ?thesis using "1.prems" by simp
  next
    case True
    define p where "p = l + (r - l) div 2"
    from True have p: "l \<le> p" "p < r" by (auto simp: p_def)
    with "1.prems" have plen: "p < length xs" by simp
    show ?thesis
    proof (cases "lt pivot (xs ! p)")
      case lt: True
      with "1.prems"(4) plen have kp: "k pivot < k (xs ! p)" by simp
      have hi: "\<forall>i. p \<le> i \<and> i < length xs \<longrightarrow> k pivot < k (xs ! i)"
        using kp mono by (meson less_le_trans)
      have "bisect lt pivot xs l p \<le> length xs
       \<and> (\<forall>i<bisect lt pivot xs l p. k (xs ! i) \<le> k pivot)
       \<and> (\<forall>i. bisect lt pivot xs l p \<le> i \<and> i < length xs \<longrightarrow> k pivot < k (xs ! i))"
        by (rule "1.IH"(1) [OF True p_def lt]) (use p plen "1.prems" hi in auto)
      moreover have "bisect lt pivot xs l r = bisect lt pivot xs l p"
        using True lt by (subst bisect.simps) (simp add: p_def Let_def)
      ultimately show ?thesis by simp
    next
      case ge: False
      with "1.prems"(4) plen have kp: "k (xs ! p) \<le> k pivot" by (simp add: not_less)
      have lo: "\<forall>i<Suc p. k (xs ! i) \<le> k pivot"
        using kp mono plen by (meson less_Suc_eq_le order_trans)
      have "bisect lt pivot xs (Suc p) r \<le> length xs
       \<and> (\<forall>i<bisect lt pivot xs (Suc p) r. k (xs ! i) \<le> k pivot)
       \<and> (\<forall>i. bisect lt pivot xs (Suc p) r \<le> i \<and> i < length xs \<longrightarrow> k pivot < k (xs ! i))"
        by (rule "1.IH"(2) [OF True p_def ge]) (use p plen "1.prems" lo in auto)
      moreover have "bisect lt pivot xs l r = bisect lt pivot xs (Suc p) r"
        using True ge by (subst bisect.simps) (simp add: p_def Let_def)
      ultimately show ?thesis by simp
    qed
  qed
qed

lemma binary_insert_sort_key:
  fixes k :: "'a \<Rightarrow> 'b::linorder"
  assumes rep: "\<forall>b\<in>set ys. lt x b \<longleftrightarrow> k x < k b"
  shows "binary_insert lt x (sort_key k ys) = sort_key k (ys @ [x])"
proof -
  define S where "S = sort_key k ys"
  define m where "m = bisect lt x S 0 (length S)"
  have sorted: "sorted (map k S)" by (simp add: S_def)
  have rep': "\<forall>i<length S. lt x (S ! i) \<longleftrightarrow> k x < k (S ! i)"
    using rep by (simp add: S_def) (metis nth_mem set_sort length_sort)
  have "m \<le> length S \<and> (\<forall>i<m. k (S ! i) \<le> k x)
      \<and> (\<forall>i. m \<le> i \<and> i < length S \<longrightarrow> k x < k (S ! i))"
    unfolding m_def
    by (rule bisect_split [where k = k and l = 0 and r = "length S" and xs = S])
       (use sorted rep' in auto)
  then have m: "m \<le> length S" "\<forall>i<m. k (S ! i) \<le> k x"
    "\<forall>i. m \<le> i \<and> i < length S \<longrightarrow> k x < k (S ! i)"
    by blast+
  have A: "\<forall>a\<in>set (take m S). k a \<le> k x"
    using m(1,2) by (auto simp: in_set_conv_nth)
  have B: "\<forall>b\<in>set (drop m S). k x < k b"
  proof
    fix b assume "b \<in> set (drop m S)"
    then obtain i where "i < length S - m" "b = S ! (m + i)"
      by (auto simp: in_set_conv_nth)
    with m(3) show "k x < k b" by simp
  qed
  define T where "T = take m S @ x # drop m S"
  have "sort_key k (ys @ [x]) = T"
  proof (rule properties_for_sort_key)
    have "mset (take m S) + mset (drop m S) = mset S"
      by (metis append_take_drop_id mset_append)
    then show "mset T = mset (ys @ [x])" by (simp add: T_def S_def)
  next
    have "sorted (map k (take m S))" "sorted (map k (drop m S))"
      using sorted by (simp_all add: sorted_map sorted_wrt_take sorted_wrt_drop)
    with A B show "sorted (map k T)"
      by (auto simp: T_def sorted_append less_imp_le intro: order_trans less_imp_le)
  next
    fix e assume "e \<in> set T"
    have st: "filter (\<lambda>z. k e = k z) ys = filter (\<lambda>z. k e = k z) S"
      using sort_key_stable [of k "k e" ys] by (simp add: S_def eq_commute)
    have sp: "filter (\<lambda>z. k e = k z) S
        = filter (\<lambda>z. k e = k z) (take m S) @ filter (\<lambda>z. k e = k z) (drop m S)"
      by (metis append_take_drop_id filter_append)
    show "filter (\<lambda>z. k e = k z) T = filter (\<lambda>z. k e = k z) (ys @ [x])"
    proof (cases "k e = k x")
      case True
      with B have "filter (\<lambda>z. k e = k z) (drop m S) = []"
        by (auto simp: filter_empty_conv)
      with True st sp show ?thesis by (simp add: T_def)
    next
      case False
      with st sp show ?thesis by (simp add: T_def)
    qed
  qed
  then show ?thesis by (simp add: binary_insert_def T_def m_def S_def Let_def)
qed

lemma binarysort_sort_key:
  fixes k :: "'a \<Rightarrow> 'b::linorder"
  assumes "\<forall>a\<in>set (pre @ rest). \<forall>b\<in>set (pre @ rest). lt a b \<longleftrightarrow> k a < k b"
  shows "binarysort lt (sort_key k pre) rest = sort_key k (pre @ rest)"
  using assms
proof (induction rest arbitrary: pre)
  case Nil
  show ?case by (simp add: binarysort_def)
next
  case (Cons x rest)
  have "binary_insert lt x (sort_key k pre) = sort_key k (pre @ [x])"
    by (rule binary_insert_sort_key) (use Cons.prems in auto)
  moreover have "binarysort lt (sort_key k (pre @ [x])) rest = sort_key k ((pre @ [x]) @ rest)"
    by (rule Cons.IH) (use Cons.prems in auto)
  ultimately show ?case by (simp add: binarysort_def)
qed

lemma list_sort_sort_key:
  fixes k :: "'a \<Rightarrow> 'b::linorder"
  assumes "\<forall>a\<in>set xs. \<forall>b\<in>set xs. lt a b \<longleftrightarrow> k a < k b"
  shows "list_sort lt xs = sort_key k xs"
proof (cases "length xs < 2")
  case True
  then have "xs = [] \<or> (\<exists>x. xs = [x])"
    by (cases xs) (auto simp: length_Suc_conv)
  with True show ?thesis by (auto simp: list_sort_def)
next
  case False
  obtain n d where c: "count_run lt xs = (n, d)" by (cases "count_run lt xs")
  from count_run_sorted [OF assms c]
  have run: "(if d then rev (take n xs) else take n xs) = sort_key k (take n xs)" by simp
  have "binarysort lt (sort_key k (take n xs)) (drop n xs) = sort_key k (take n xs @ drop n xs)"
    by (rule binarysort_sort_key) (use assms in simp)
  with False c run show ?thesis by (simp add: list_sort_def)
qed

lemma same_tzinfo_sym: "same_tzinfo x y \<longleftrightarrow> same_tzinfo y x"
  by (cases x; cases y) simp_all

lemma dt_le_of_dt_lt:
  assumes "dt_lt a b = Inr v"
  shows "dt_le b a = Inr (\<not> v)"
proof (cases "tzinfo a")
  case None
  with assms show ?thesis
    by (cases "tzinfo b") (auto simp: dt_lt_def dt_le_def not_less)
next
  case (Some x)
  show ?thesis
  proof (cases "tzinfo b")
    case None
    with Some assms show ?thesis by (simp add: dt_lt_def)
  next
    case (Some y)
    show ?thesis
    proof (cases "same_tzinfo x y \<or> utcoffset x = utcoffset y")
      case True
      then have "same_tzinfo y x \<or> utcoffset y = utcoffset x"
        using same_tzinfo_sym [of x y] by auto
      with True assms \<open>tzinfo a = Some x\<close> Some show ?thesis
        by (auto simp: dt_lt_def dt_le_def not_less)
    next
      case False
      then have "\<not> (same_tzinfo y x \<or> utcoffset y = utcoffset x)"
        using same_tzinfo_sym [of x y] by auto
      with False assms \<open>tzinfo a = Some x\<close> Some show ?thesis
        by (auto simp: dt_lt_def dt_le_def not_less)
    qed
  qed
qed

lemma dt_lt_local:
  assumes "tzinfo a = Some (TzLocal j)" "tzinfo b = Some (TzLocal k)"
  shows "dt_lt a b = Inr (wall a < wall b)"
  using assms by (simp add: dt_lt_def)

lemma dt_lt_one_offset:
  assumes "tzinfo a = Some x" "tzinfo b = Some y" "utcoffset x = c" "utcoffset y = c"
  shows "dt_lt a b = Inr (instant a < instant b)"
  using assms by (simp add: dt_lt_def instant_def)

lemma sorted_published_desc_key:
  assumes "\<forall>a\<in>set xs. \<forall>b\<in>set xs. dt_lt (published a) (published b) = Inr (key a < key b)"
  shows "sorted_published_desc xs = Inr (rev (sort_key key (rev xs)))"
proof -
  have nomix: "\<not> ((\<exists>a\<in>set xs. tzinfo (published a) = None)
      \<and> (\<exists>a\<in>set xs. tzinfo (published a) \<noteq> None))"
  proof
    assume "(\<exists>a\<in>set xs. tzinfo (published a) = None)
      \<and> (\<exists>a\<in>set xs. tzinfo (published a) \<noteq> None)"
    then obtain a b where ab: "a \<in> set xs" "b \<in> set xs" "tzinfo (published a) = None"
      "tzinfo (published b) \<noteq> None" by blast
    then have "dt_lt (published a) (published b) = Inl TypeError"
      by (auto simp: dt_lt_def)
    with assms ab(1,2) show False by simp
  qed
  have "list_sort published_lt (rev xs) = sort_key key (rev xs)"
    by (rule list_sort_sort_key) (use assms in \<open>simp add: published_lt_def\<close>)
  with nomix show ?thesis by (simp add: sorted_published_desc_def)
qed

lemma sorted_desc_key:
  fixes key :: "'a \<Rightarrow> 'b::linorder"
  shows "sorted_wrt (\<lambda>a b. key b \<le> key a) (rev (sort_key key (rev xs)))"
proof -
  have "sorted (map key (sort_key key (rev xs)))" by simp
  then have "sorted_wrt (\<lambda>a b. key a \<le> key b) (sort_key key (rev xs))"
    by (simp add: sorted_map)
  then show ?thesis by (simp add: sorted_wrt_rev)
qed

lemma mset_binary_insert: "mset (binary_insert lt x xs) = add_mset x (mset xs)"
proof -
  have "mset (take l xs) + mset (drop l xs) = mset xs" for l
    by (metis append_take_drop_id mset_append)
  then show ?thesis by (simp add: binary_insert_def Let_def)
qed

lemma mset_binarysort: "mset (binarysort lt run rest) = mset run + mset rest"
  unfolding binarysort_def
  by (induction rest arbitrary: run) (simp_all add: mset_binary_insert)

lemma mset_list_sort: "mset (list_sort lt xs) = mset xs"
proof (cases "length xs < 2")
  case True
  then show ?thesis by (simp add: list_sort_def)
next
  case False
  obtain n d where c: "count_run lt xs = (n, d)" by (cases "count_run lt xs")
  have "mset (take n xs) + mset (drop n xs) = mset xs"
    by (metis append_take_drop_id mset_append)
  with False c show ?thesis by (simp add: list_sort_def mset_binarysort)
qed

lemma sorted_published_desc_mset:
  assumes "sorted_published_desc xs = Inr ys"
  shows "mset ys = mset xs"
  using assms by (auto simp: sorted_published_desc_def mset_list_sort split: if_splits)

lemma set_slice_to: "set (slice_to n xs) \<subseteq> set xs"
  by (auto simp: slice_to_def dest: in_set_takeD)

lemma filter_last_days_top_n_Inr:
  assumes "filter_last_days_top_n tzl tzw clock articles days top_n = Inr r"
  defines "end' \<equiv> now_local tzl clock"
  defines "start \<equiv> \<lparr>wall = wall end' - days * us_per_day,
                     tzinfo = Some (TzLocal (tzw (wall end' - days * us_per_day)))\<rparr>"
  shows "\<exists>ordered.
      sorted_published_desc
        (filter (\<lambda>a. dt_le start (published a) = Inr True \<and> dt_le (published a) end' = Inr True)
           articles) = Inr ordered
      \<and> r = slice_to top_n ordered"
proof -
  from assms(1) obtain f where f: "filter_window start end' articles = Inr f"
    by (auto simp: filter_last_days_top_n_def Let_def end'_def start_def
        split: if_splits sum.splits)
  from filter_window_Inr [OF f]
  have fw: "f = filter (\<lambda>a. dt_le start (published a) = Inr True
                        \<and> dt_le (published a) end' = Inr True) articles"
    by (simp add: between_True)
  from assms(1) f obtain ordered where "sorted_published_desc f = Inr ordered"
    "r = slice_to top_n ordered"
    by (auto simp: filter_last_days_top_n_def Let_def end'_def start_def
        split: if_splits sum.splits)
  with fw show ?thesis by blast
qed
section \<open>The claims\<close>

subsection \<open>C1: the order of the date candidates\<close>

text \<open>
  Claim C1. \<^verbatim>\<open>parse_entry\<close> of \<^verbatim>\<open>scripts/weekly_report.py\<close> tries the structured
  \<^verbatim>\<open>published\<close> breakdown, the free-text \<^verbatim>\<open>published\<close> field, \<^verbatim>\<open>pubDate\<close>, \<^verbatim>\<open>dc:date\<close>,
  the structured \<^verbatim>\<open>updated\<close> breakdown and the free-text \<^verbatim>\<open>updated\<close> field, in this order,
  and takes the first that yields a date. \<^verbatim>\<open>parse_entry\<close> of \<^verbatim>\<open>src/app.py\<close> tries the free
  texts \<^verbatim>\<open>published\<close>, \<^verbatim>\<open>updated\<close>, \<^verbatim>\<open>pubDate\<close>, \<^verbatim>\<open>dc:date\<close> and then the structured
  \<^verbatim>\<open>published\<close> breakdown; it never reads the structured \<^verbatim>\<open>updated\<close> breakdown. On an
  entry whose only date-bearing field is that breakdown the batch file yields an article
  with its value and the interactive file yields none.
\<close>

theorem date_resolution_order:
  "weekly_resolve_date parse_date e =
     first_success
       [parse_struct (e_published_parsed e), from_text parse_date (e_published e),
        from_text parse_date (e_pubDate e), from_text parse_date (e_dc_date e),
        parse_struct (e_updated_parsed e), from_text parse_date (e_updated e)]
   \<and> app_resolve_date parse_date e =
     first_success
       [from_text parse_date (e_published e), from_text parse_date (e_updated e),
        from_text parse_date (e_pubDate e), from_text parse_date (e_dc_date e),
        parse_struct (e_published_parsed e)]
   \<and> weekly_parse_entry (\<lambda>_. None) (\<lambda>_. 0) updated_parsed_only ''S'' =
       Inr (Some (sample_article ''U'' ''http://s.example/u'' ''S''
         \<lparr>wall = 63852840000000000, tzinfo = Some (TzLocal 0)\<rparr>))
   \<and> app_parse_entry (\<lambda>_. None) updated_parsed_only ''S'' = Inr None"
proof (intro conjI)
  show "weekly_parse_entry (\<lambda>_. None) (\<lambda>_. 0) updated_parsed_only ''S'' =
       Inr (Some (sample_article ''U'' ''http://s.example/u'' ''S''
         \<lparr>wall = 63852840000000000, tzinfo = Some (TzLocal 0)\<rparr>))"
    by code_simp
  show "app_parse_entry (\<lambda>_. None) updated_parsed_only ''S'' = Inr None"
    by code_simp
qed (rule weekly_resolve_date_order app_resolve_date_order)+

subsection \<open>C2: the zone of the stored timestamp\<close>

text \<open>
  Claim C2, as the code has it. Every article that a normaliser returns carries a zone-aware
  \<^verbatim>\<open>published\<close> in one zone per file: the local zone of the process in
  \<^verbatim>\<open>scripts/weekly_report.py\<close> (\<^verbatim>\<open>to_local\<close>) and UTC in \<^verbatim>\<open>src/app.py\<close>
  (\<^verbatim>\<open>to_utc\<close>). In both, a naive timestamp is read as UTC and an aware one is converted,
  and the stored value denotes the instant of the resolved date. A naive timestamp and the
  same calendar reading marked as UTC are normalised to the same value, so
  2024-01-01T00:00:00 and 2024-01-01T00:00:00Z give the same instant.
\<close>

theorem published_zone_normalised:
  "(weekly_parse_entry parse_date tzl e s = Inr (Some a) \<longrightarrow>
      (\<exists>k. tzinfo (published a) = Some (TzLocal k))
      \<and> (\<exists>d. weekly_resolve_date parse_date e = Some d \<and> instant (published a) = instant d
            \<and> ((\<forall>j. tzinfo d \<noteq> Some (TzLocal j)) \<longrightarrow>
                 published a = \<lparr>wall = instant d + tzl (instant d),
                                 tzinfo = Some (TzLocal (tzl (instant d)))\<rparr>)))
   \<and> (app_parse_entry parse_date e s = Inr (Some a) \<longrightarrow>
        (\<exists>d. app_resolve_date parse_date e = Some d
            \<and> published a = \<lparr>wall = instant d, tzinfo = Some TzUTC\<rparr>))
   \<and> to_local tzl (dt\<lparr>tzinfo := None\<rparr>) = to_local tzl (dt\<lparr>tzinfo := Some TzUTC\<rparr>)
   \<and> to_utc (dt\<lparr>tzinfo := None\<rparr>) = to_utc (dt\<lparr>tzinfo := Some TzUTC\<rparr>)"
proof (intro conjI impI)
  assume w: "weekly_parse_entry parse_date tzl e s = Inr (Some a)"
  from weekly_parse_entry_Some [OF w] obtain d where
    d: "weekly_resolve_date parse_date e = Some d" "to_local tzl d = Inr (published a)" by blast
  from to_local_result [OF d(2)] show "\<exists>k. tzinfo (published a) = Some (TzLocal k)" by blast
  from to_local_result [OF d(2)] to_local_value [OF d(2)] d(1)
  show "\<exists>d. weekly_resolve_date parse_date e = Some d \<and> instant (published a) = instant d
            \<and> ((\<forall>j. tzinfo d \<noteq> Some (TzLocal j)) \<longrightarrow>
                 published a = \<lparr>wall = instant d + tzl (instant d),
                                 tzinfo = Some (TzLocal (tzl (instant d)))\<rparr>)"
    by blast
next
  assume w: "app_parse_entry parse_date e s = Inr (Some a)"
  from app_parse_entry_Some [OF w] obtain d where
    d: "app_resolve_date parse_date e = Some d" "to_utc d = Inr (published a)" by blast
  from to_utc_value [OF d(2)] d(1)
  show "\<exists>d. app_resolve_date parse_date e = Some d
            \<and> published a = \<lparr>wall = instant d, tzinfo = Some TzUTC\<rparr>"
    by blast
next
  show "to_local tzl (dt\<lparr>tzinfo := None\<rparr>) = to_local tzl (dt\<lparr>tzinfo := Some TzUTC\<rparr>)"
    by (simp add: to_local_def)
  show "to_utc (dt\<lparr>tzinfo := None\<rparr>) = to_utc (dt\<lparr>tzinfo := Some TzUTC\<rparr>)"
    by (simp add: to_utc_def astimezone_utc_def)
qed

text \<open>The claim as it was stated asks for the local zone in both files; \<^verbatim>\<open>src/app.py\<close>
  stores UTC, which in a process one hour east of UTC is another value than the local one.\<close>

theorem published_zone_counterexample:
  "app_parse_entry parse_date_sample
      (text_entry ''X'' ''http://s.example/x'' ''2024-01-01T00:00:00'') ''S''
     = Inr (Some (sample_article ''X'' ''http://s.example/x'' ''S''
         \<lparr>wall = 63839664000000000, tzinfo = Some TzUTC\<rparr>))
   \<and> to_local (\<lambda>_. 3600000000) \<lparr>wall = 63839664000000000, tzinfo = None\<rparr>
     = Inr \<lparr>wall = 63839667600000000, tzinfo = Some (TzLocal 3600000000)\<rparr>"
  by code_simp

theorem published_zone_normalised_witness:
  "weekly_parse_entry parse_date_sample (\<lambda>_. 3600000000)
      (text_entry ''X'' ''http://s.example/x'' ''2024-01-01T00:00:00'') ''S''
     = Inr (Some (sample_article ''X'' ''http://s.example/x'' ''S''
         \<lparr>wall = 63839667600000000, tzinfo = Some (TzLocal 3600000000)\<rparr>))
   \<and> weekly_parse_entry parse_date_sample (\<lambda>_. 3600000000)
      (text_entry ''X'' ''http://s.example/x'' ''2024-01-01T00:00:00Z'') ''S''
     = Inr (Some (sample_article ''X'' ''http://s.example/x'' ''S''
         \<lparr>wall = 63839667600000000, tzinfo = Some (TzLocal 3600000000)\<rparr>))
   \<and> new_datetime 2024 1 1 0 0 0 = Some \<lparr>wall = 63839664000000000, tzinfo = None\<rparr>
   \<and> (\<exists>k. tzinfo \<lparr>wall = 63839667600000000, tzinfo = Some (TzLocal 3600000000)\<rparr>
            = Some (TzLocal k))
   \<and> to_utc \<lparr>wall = 63839664000000000, tzinfo = None\<rparr>
       = to_utc \<lparr>wall = 63839664000000000, tzinfo = Some TzUTC\<rparr>"
proof -
  let ?a = "sample_article ''X'' ''http://s.example/x'' ''S''
         \<lparr>wall = 63839667600000000, tzinfo = Some (TzLocal 3600000000)\<rparr>"
  have a: "weekly_parse_entry parse_date_sample (\<lambda>_. 3600000000)
      (text_entry ''X'' ''http://s.example/x'' ''2024-01-01T00:00:00'') ''S'' = Inr (Some ?a)"
    by code_simp
  have b: "weekly_parse_entry parse_date_sample (\<lambda>_. 3600000000)
      (text_entry ''X'' ''http://s.example/x'' ''2024-01-01T00:00:00Z'') ''S'' = Inr (Some ?a)"
    by code_simp
  have c: "new_datetime 2024 1 1 0 0 0 = Some \<lparr>wall = 63839664000000000, tzinfo = None\<rparr>"
    by code_simp
  have p: "published ?a = \<lparr>wall = 63839667600000000, tzinfo = Some (TzLocal 3600000000)\<rparr>"
    by (simp add: sample_article_def)
  from published_zone_normalised
    [of parse_date_sample "\<lambda>_. 3600000000"
        "text_entry ''X'' ''http://s.example/x'' ''2024-01-01T00:00:00''" "''S''" ?a
        "\<lparr>wall = 63839664000000000, tzinfo = None\<rparr>"] a
  have d: "\<exists>k. tzinfo (published ?a) = Some (TzLocal k)"
    and e: "to_utc (\<lparr>wall = 63839664000000000, tzinfo = None\<rparr>\<lparr>tzinfo := None\<rparr>)
       = to_utc (\<lparr>wall = 63839664000000000, tzinfo = None\<rparr>\<lparr>tzinfo := Some TzUTC\<rparr>)"
    by blast+
  from a b c d e show ?thesis unfolding p by simp
qed

subsection \<open>C3: the two copies of the aggregation core\<close>

text \<open>
  Claim C3. The two copies of \<^verbatim>\<open>load_articles\<close> are the same text and each is a function of
  the fetch results, but they call different copies of \<^verbatim>\<open>parse_entry\<close>. On a feed whose
  entry carries only the structured \<^verbatim>\<open>updated\<close> breakdown the interactive file returns no
  article and the batch file returns one, so the two collections differ.
\<close>

theorem load_articles_copies_differ:
  "app_load_articles fetch_updated (\<lambda>_. None) one_source = []
   \<and> weekly_load_articles fetch_updated (\<lambda>_. None) (\<lambda>_. 0) one_source =
       [sample_article ''U'' ''http://s.example/u'' ''S''
          \<lparr>wall = 63852840000000000, tzinfo = Some (TzLocal 0)\<rparr>]"
  by code_simp

subsection \<open>C4: deduplication\<close>



subsection \<open>C5: the order of the canonical collection\<close>

text \<open>
  Claim C5. The list returned by \<^verbatim>\<open>load_articles\<close>, in either file, is in descending
  order of \<^verbatim>\<open>published\<close> under Python's own comparison of the stored datetimes: every
  article compares greater than or equal to every later one, so in particular each adjacent
  pair does. The sort is stable: the articles with one and the same timestamp appear in the
  order they had in the deduplicated list, and the sort only permutes that list.
\<close>

theorem load_articles_sorted_stable:
  "sorted_wrt (\<lambda>a b. dt_le (published b) (published a) = Inr True)
      (app_load_articles fetch_feed parse_date sources)
   \<and> sorted_wrt (\<lambda>a b. dt_le (published b) (published a) = Inr True)
        (weekly_load_articles fetch_feed parse_date tzl sources)
   \<and> filter (\<lambda>a. wall (published a) = w) (finish articles)
        = filter (\<lambda>a. wall (published a) = w) (dedupe_loop {} articles)
   \<and> mset (finish articles) = mset (dedupe_loop {} articles)"
proof (intro conjI)
  show "sorted_wrt (\<lambda>a b. dt_le (published b) (published a) = Inr True)
      (app_load_articles fetch_feed parse_date sources)"
    unfolding app_load_articles_def
    by (rule sorted_desc_python [where z = TzUTC])
       (use app_published_utc in \<open>auto simp: same_tzinfo_UTC\<close>)
  show "sorted_wrt (\<lambda>a b. dt_le (published b) (published a) = Inr True)
        (weekly_load_articles fetch_feed parse_date tzl sources)"
    unfolding weekly_load_articles_def
    by (rule sorted_desc_python [where z = "TzLocal 0"])
       (use weekly_published_local in \<open>fastforce simp: same_tzinfo_Local\<close>)
  show "filter (\<lambda>a. wall (published a) = w) (finish articles)
        = filter (\<lambda>a. wall (published a) = w) (dedupe_loop {} articles)"
    by (simp add: finish_def stable_sort_published_desc)
  show "mset (finish articles) = mset (dedupe_loop {} articles)"
    by (simp add: finish_def mset_sort_published_desc)
qed

theorem load_articles_sorted_stable_witness:
  "weekly_load_articles fetch_three (\<lambda>_. None) (\<lambda>_. 3600000000) one_source =
     [sample_article ''Y'' ''http://s.example/y'' ''S''
        \<lparr>wall = 63852886800000000, tzinfo = Some (TzLocal 3600000000)\<rparr>,
      sample_article ''X'' ''http://s.example/x'' ''S''
        \<lparr>wall = 63852800400000000, tzinfo = Some (TzLocal 3600000000)\<rparr>,
      sample_article ''Z'' ''http://s.example/z'' ''S''
        \<lparr>wall = 63852800400000000, tzinfo = Some (TzLocal 3600000000)\<rparr>]
   \<and> sorted_wrt (\<lambda>a b. dt_le (published b) (published a) = Inr True)
        (weekly_load_articles fetch_three (\<lambda>_. None) (\<lambda>_. 3600000000) one_source)
   \<and> sorted_wrt (\<lambda>a b. dt_le (published b) (published a) = Inr True)
        (app_load_articles fetch_three (\<lambda>_. None) one_source)"
proof -
  have a: "weekly_load_articles fetch_three (\<lambda>_. None) (\<lambda>_. 3600000000) one_source =
     [sample_article ''Y'' ''http://s.example/y'' ''S''
        \<lparr>wall = 63852886800000000, tzinfo = Some (TzLocal 3600000000)\<rparr>,
      sample_article ''X'' ''http://s.example/x'' ''S''
        \<lparr>wall = 63852800400000000, tzinfo = Some (TzLocal 3600000000)\<rparr>,
      sample_article ''Z'' ''http://s.example/z'' ''S''
        \<lparr>wall = 63852800400000000, tzinfo = Some (TzLocal 3600000000)\<rparr>]"
    by code_simp
  from load_articles_sorted_stable [of fetch_three "\<lambda>_. None" one_source "\<lambda>_. 3600000000" 0 "[]"]
  have b: "sorted_wrt (\<lambda>a b. dt_le (published b) (published a) = Inr True)
        (weekly_load_articles fetch_three (\<lambda>_. None) (\<lambda>_. 3600000000) one_source)"
    and c: "sorted_wrt (\<lambda>a b. dt_le (published b) (published a) = Inr True)
        (app_load_articles fetch_three (\<lambda>_. None) one_source)"
    by blast+
  from a b c show ?thesis by blast
qed

subsection \<open>C6: the date window of the filter engine\<close>

text \<open>
  Claim C6. When \<^verbatim>\<open>apply_filters\<close> returns, its result is a subsequence of its input, in
  the input's order, and every article of the result satisfies
  \<^verbatim>\<open>start_date <= a.published <= end_date\<close> under Python's comparison. Both bounds are
  inclusive: an article of the input published exactly at the start or at the end of a
  window that is not empty is in the result whenever the other criteria let it pass. The
  function returns whenever the two bounds and every timestamp are zone-aware.
\<close>

theorem apply_filters_window:
  "(apply_filters lower articles start_date end_date allowed_sources allowed_regions m query
      = Inr r \<longrightarrow>
      subseq r articles
      \<and> (\<forall>a\<in>set r. dt_le start_date (published a) = Inr True
                      \<and> dt_le (published a) end_date = Inr True)
      \<and> (\<forall>a\<in>set articles.
            (published a = start_date \<or> published a = end_date)
            \<and> dt_le start_date end_date = Inr True
            \<and> (allowed_sources = {} \<or> source a \<in> allowed_sources)
            \<and> (allowed_regions = {} \<or> region_of m a \<in> allowed_regions)
            \<and> (query = [] \<or> query_matches lower (lower query) a)
            \<longrightarrow> a \<in> set r))
   \<and> (tzinfo start_date \<noteq> None \<and> tzinfo end_date \<noteq> None
        \<and> (\<forall>a\<in>set articles. tzinfo (published a) \<noteq> None)
      \<longrightarrow> (\<exists>r'. apply_filters lower articles start_date end_date allowed_sources allowed_regions
                  m query = Inr r'))"
proof (intro conjI impI)
  assume a: "apply_filters lower articles start_date end_date allowed_sources allowed_regions m
    query = Inr r"
  note r = apply_filters_Inr [OF a]
  show "subseq r articles" by (subst r) simp
  show "\<forall>a\<in>set r. dt_le start_date (published a) = Inr True \<and> dt_le (published a) end_date = Inr True"
    by (subst r) (auto simp: passes_def between_True)
  show "\<forall>a\<in>set articles.
            (published a = start_date \<or> published a = end_date)
            \<and> dt_le start_date end_date = Inr True
            \<and> (allowed_sources = {} \<or> source a \<in> allowed_sources)
            \<and> (allowed_regions = {} \<or> region_of m a \<in> allowed_regions)
            \<and> (query = [] \<or> query_matches lower (lower query) a)
            \<longrightarrow> a \<in> set r"
  proof (intro ballI impI)
    fix a assume m: "a \<in> set articles"
      and h: "(published a = start_date \<or> published a = end_date)
            \<and> dt_le start_date end_date = Inr True
            \<and> (allowed_sources = {} \<or> source a \<in> allowed_sources)
            \<and> (allowed_regions = {} \<or> region_of m a \<in> allowed_regions)
            \<and> (query = [] \<or> query_matches lower (lower query) a)"
    from h have "between start_date (published a) end_date = Inr True"
      by (auto simp: between_True dt_le_self)
    with h have "passes start_date end_date allowed_sources allowed_regions m a"
      by (simp add: passes_def)
    with h m show "a \<in> set r" by (subst r) simp
  qed
next
  assume "tzinfo start_date \<noteq> None \<and> tzinfo end_date \<noteq> None
        \<and> (\<forall>a\<in>set articles. tzinfo (published a) \<noteq> None)"
  then show "\<exists>r'. apply_filters lower articles start_date end_date allowed_sources allowed_regions
                  m query = Inr r'"
    using apply_filters_total by blast
qed

theorem apply_filters_window_witness:
  "apply_filters lower_sample [fa1, fa2, fa3, fa4, fa5] window_start window_end {} {}
       sample_regions []
     = Inr [fa1, fa2, fa3]
   \<and> subseq [fa1, fa2, fa3] [fa1, fa2, fa3, fa4, fa5]
   \<and> published fa1 = window_start \<and> published fa3 = window_end
   \<and> fa1 \<in> set [fa1, fa2, fa3] \<and> fa3 \<in> set [fa1, fa2, fa3]
   \<and> dt_le window_start (published fa2) = Inr True
   \<and> dt_le (published fa2) window_end = Inr True"
proof -
  have r: "apply_filters lower_sample [fa1, fa2, fa3, fa4, fa5] window_start window_end {} {}
       sample_regions []
     = Inr [fa1, fa2, fa3]"
    by code_simp
  have p: "published fa1 = window_start" "published fa3 = window_end"
    by (simp_all add: fa1_def fa3_def)
  have w: "dt_le window_start window_end = Inr True" by code_simp
  note th = apply_filters_window [of lower_sample "[fa1, fa2, fa3, fa4, fa5]" window_start
      window_end "{}" "{}" sample_regions "[]" "[fa1, fa2, fa3]"]
  from th r have s: "subseq [fa1, fa2, fa3] [fa1, fa2, fa3, fa4, fa5]" by blast
  from th r have "\<forall>a\<in>set [fa1, fa2, fa3]. dt_le window_start (published a) = Inr True
                      \<and> dt_le (published a) window_end = Inr True"
    by blast
  then have b: "dt_le window_start (published fa2) = Inr True"
    "dt_le (published fa2) window_end = Inr True"
    by simp_all
  from th r have inc: "\<forall>a\<in>set [fa1, fa2, fa3, fa4, fa5].
            (published a = window_start \<or> published a = window_end)
            \<and> dt_le window_start window_end = Inr True
            \<and> (({} :: string set) = {} \<or> source a \<in> {})
            \<and> (({} :: string set) = {} \<or> region_of sample_regions a \<in> {})
            \<and> (([] :: string) = [] \<or> query_matches lower_sample (lower_sample []) a)
            \<longrightarrow> a \<in> set [fa1, fa2, fa3]"
    by blast
  from inc p(1) w have i1: "fa1 \<in> set [fa1, fa2, fa3]" by simp
  from inc p(2) w have i3: "fa3 \<in> set [fa1, fa2, fa3]" by simp
  from r s p i1 i3 b show ?thesis by blast
qed

subsection \<open>C7: how the criteria combine\<close>

text \<open>
  Claim C7, as the code has it. The result of \<^verbatim>\<open>apply_filters\<close> is the input filtered by
  the conjunction of its criteria, and a criterion that is not given passes everything: the
  date window; the allowed sources, where the empty set lets every article pass; the
  allowed regions, where the empty set lets every article pass and the region of an article
  is looked up by its source name with \<open>''Global''\<close> for a name the lookup does not know;
  and the query, where the empty query lets every article pass and a non-empty one matches
  exactly when its lowercase form (\<^verbatim>\<open>str.lower\<close>) is a contiguous part of the lowercase form
  of the title, or of the lowercase form of a summary that is present and not empty. An
  article without summary is matched through its title only. Where \<^verbatim>\<open>str.lower\<close> acts on
  the query and on a text as it does on ASCII, the lowercase test is the case-insensitive
  substring test (\<open>ci_substring\<close>).
\<close>

theorem apply_filters_conjunction:
  "(apply_filters lower articles start_date end_date allowed_sources allowed_regions m query
      = Inr r \<longrightarrow>
      r = filter (\<lambda>a. between start_date (published a) end_date = Inr True
                     \<and> (allowed_sources = {} \<or> source a \<in> allowed_sources)
                     \<and> (allowed_regions = {} \<or> region_of m a \<in> allowed_regions)
                     \<and> (query = [] \<or> sublist (lower query) (lower (title a))
                          \<or> (\<exists>t. summary a = Some t \<and> t \<noteq> []
                                \<and> sublist (lower query) (lower t)))) articles)
   \<and> (m (source a) = None \<longrightarrow> region_of m a = ''Global'')
   \<and> (m (source a) = Some reg \<longrightarrow> region_of m a = reg)
   \<and> (summary a = None \<longrightarrow>
        query_matches lower (lower query) a = sublist (lower query) (lower (title a)))
   \<and> (lower query = map ascii_lower query \<and> lower s = map ascii_lower s \<longrightarrow>
        sublist (lower query) (lower s) = ci_substring query s)"
proof (intro conjI impI)
  assume a: "apply_filters lower articles start_date end_date allowed_sources allowed_regions m
    query = Inr r"
  have q: "(query = [] \<or> query_matches lower (lower query) x) \<longleftrightarrow>
      (query = [] \<or> sublist (lower query) (lower (title x))
         \<or> (\<exists>t. summary x = Some t \<and> t \<noteq> [] \<and> sublist (lower query) (lower t)))" for x
    by (simp only: query_matches_iff)
  show "r = filter (\<lambda>a. between start_date (published a) end_date = Inr True
                     \<and> (allowed_sources = {} \<or> source a \<in> allowed_sources)
                     \<and> (allowed_regions = {} \<or> region_of m a \<in> allowed_regions)
                     \<and> (query = [] \<or> sublist (lower query) (lower (title a))
                          \<or> (\<exists>t. summary a = Some t \<and> t \<noteq> []
                                \<and> sublist (lower query) (lower t)))) articles"
    by (subst apply_filters_Inr [OF a]) (simp only: passes_def q conj_assoc)
next
  show "region_of m a = ''Global''" if "m (source a) = None"
    using that by (simp add: region_of_def)
  show "region_of m a = reg" if "m (source a) = Some reg"
    using that by (simp add: region_of_def)
  show "query_matches lower (lower query) a = sublist (lower query) (lower (title a))"
    if "summary a = None"
    using that by (simp add: query_matches_iff)
  show "sublist (lower query) (lower s) = ci_substring query s"
    if "lower query = map ascii_lower query \<and> lower s = map ascii_lower s"
    using that by (simp add: sublist_ascii_lower_iff)
qed

text \<open>The claim as it was stated asks for a case-insensitive substring test. \<^verbatim>\<open>str.lower\<close>
  is sensitive to the context of a letter: the capital sigma that ends the query \<open>greek_os\<close>
  becomes a final sigma, while the same letter inside the title \<open>greek_oso\<close> becomes a
  medial one. The query is a contiguous part of the title as it stands, and the article is
  not in the result.\<close>

theorem query_match_counterexample:
  "apply_filters lower_sample [greek_article] window_start window_end {} {} sample_regions
       greek_os = Inr []
   \<and> title greek_article = greek_oso
   \<and> sublist greek_os (title greek_article)
   \<and> ci_substring greek_os (title greek_article)
   \<and> between window_start (published greek_article) window_end = Inr True
   \<and> lower_sample greek_os = [CHR 0xCE, CHR 0xBF, CHR 0xCF, CHR 0x82]
   \<and> lower_sample (title greek_article)
        = [CHR 0xCE, CHR 0xBF, CHR 0xCF, CHR 0x83, CHR 0xCE, CHR 0xBF]"
  by code_simp

theorem apply_filters_conjunction_witness:
  "apply_filters lower_sample [fa1, fa2, fa3, fa4, fa5] window_start window_end
       {''DeepMind'', ''Unlisted'', ''OpenAI Blog''} {''Europe'', ''Global''} sample_regions ''AI''
     = Inr [fa2]
   \<and> apply_filters lower_sample [fa1, fa2, fa3, fa4, fa5] window_start window_end {} {}
       sample_regions ''OPENAI'' = Inr [fa1]
   \<and> region_of sample_regions fa3 = ''Global''
   \<and> region_of sample_regions fa2 = ''Europe''
   \<and> query_matches lower_sample (lower_sample ''OPENAI'') fa1
   \<and> ci_substring ''OPENAI'' (title fa1)
   \<and> [fa1] = filter (\<lambda>a. between window_start (published a) window_end = Inr True
                     \<and> (({} :: string set) = {} \<or> source a \<in> {})
                     \<and> (({} :: string set) = {} \<or> region_of sample_regions a \<in> {})
                     \<and> (''OPENAI'' = [] \<or> sublist (lower_sample ''OPENAI'') (lower_sample (title a))
                          \<or> (\<exists>t. summary a = Some t \<and> t \<noteq> []
                                \<and> sublist (lower_sample ''OPENAI'') (lower_sample t))))
               [fa1, fa2, fa3, fa4, fa5]"
proof -
  have r1: "apply_filters lower_sample [fa1, fa2, fa3, fa4, fa5] window_start window_end
       {''DeepMind'', ''Unlisted'', ''OpenAI Blog''} {''Europe'', ''Global''} sample_regions ''AI''
     = Inr [fa2]"
    by code_simp
  have r2: "apply_filters lower_sample [fa1, fa2, fa3, fa4, fa5] window_start window_end {} {}
       sample_regions ''OPENAI'' = Inr [fa1]"
    by code_simp
  have m3: "sample_regions (source fa3) = None" by code_simp
  have m2: "sample_regions (source fa2) = Some ''Europe''" by code_simp
  have s1: "summary fa1 = None" by (simp add: fa1_def)
  have l1: "lower_sample ''OPENAI'' = map ascii_lower ''OPENAI''" by code_simp
  have l2: "lower_sample (title fa1) = map ascii_lower (title fa1)" by code_simp
  have sl: "sublist (lower_sample ''OPENAI'') (lower_sample (title fa1))" by code_simp
  from apply_filters_conjunction [where m = sample_regions and a = fa3] m3
  have g3: "region_of sample_regions fa3 = ''Global''" by blast
  from apply_filters_conjunction [where m = sample_regions and a = fa2 and reg = "''Europe''"] m2
  have g2: "region_of sample_regions fa2 = ''Europe''" by blast
  note th = apply_filters_conjunction [of lower_sample "[fa1, fa2, fa3, fa4, fa5]" window_start
      window_end "{}" "{}" sample_regions "''OPENAI''" "[fa1]" fa1 _ "title fa1"]
  from th s1 sl have q: "query_matches lower_sample (lower_sample ''OPENAI'') fa1"
    by blast
  from th l1 l2 sl have c: "ci_substring ''OPENAI'' (title fa1)"
    by blast
  from th r2 have f: "[fa1] = filter (\<lambda>a. between window_start (published a) window_end = Inr True
                     \<and> (({} :: string set) = {} \<or> source a \<in> {})
                     \<and> (({} :: string set) = {} \<or> region_of sample_regions a \<in> {})
                     \<and> (''OPENAI'' = [] \<or> sublist (lower_sample ''OPENAI'') (lower_sample (title a))
                          \<or> (\<exists>t. summary a = Some t \<and> t \<noteq> []
                                \<and> sublist (lower_sample ''OPENAI'') (lower_sample t))))
               [fa1, fa2, fa3, fa4, fa5]"
    by blast
  from r1 r2 g3 g2 q c f show ?thesis by blast
qed

subsection \<open>C8: the batch filter\<close>

text \<open>
  Claim C8, as the code has it. \<^verbatim>\<open>filter_last_days_top_n\<close> keeps the articles \<open>a\<close> with
  \<^verbatim>\<open>start <= a.published <= end\<close> under Python's comparison, where \<^verbatim>\<open>end\<close> is the current
  local time and \<^verbatim>\<open>start\<close> is \<^verbatim>\<open>days\<close> days before it on the local clock face, and applies
  no other criterion; it sorts them with \<^verbatim>\<open>sorted\<close> under Python's comparison of the stored
  datetimes, descending and stably, and returns the first \<^verbatim>\<open>top_n\<close> of them. Every article
  of the result is an article of the input inside the window. Where Python's comparison of
  the timestamps is the comparison of a key, and the count is not negative, the result is
  the first \<^verbatim>\<open>top_n\<close> of the window in descending, stable order of that key: it has
  \<open>min top_n\<close> (number of articles in the window) elements, is in descending order, and each
  of its articles compares at least as large as every article of the window left out. The
  key is the reading of the local clock face when every timestamp is in the local zone,
  and every timestamp that \<^verbatim>\<open>load_articles\<close> of the batch file returns is; the key is the
  instant when all timestamps have one offset from UTC. With twenty articles in the window, one after it and
  one before it, and a count of ten, the result is the ten most recent ones of the window.
\<close>

theorem batch_filter_top_n:
  "(filter_last_days_top_n tzl tzw clock articles days top_n = Inr r \<longrightarrow>
      (\<forall>a\<in>set r. a \<in> set articles
         \<and> dt_le \<lparr>wall = wall (now_local tzl clock) - days * us_per_day,
                  tzinfo = Some (TzLocal (tzw (wall (now_local tzl clock) - days * us_per_day)))\<rparr>
              (published a) = Inr True
         \<and> dt_le (published a) (now_local tzl clock) = Inr True))
   \<and> (filter_last_days_top_n tzl tzw clock articles days top_n = Inr r \<and> 0 \<le> top_n
        \<and> (\<forall>a\<in>set articles. \<forall>b\<in>set articles.
              dt_lt (published a) (published b) = Inr (key a < key b))
      \<longrightarrow> (let end' = now_local tzl clock;
                start = \<lparr>wall = wall end' - days * us_per_day,
                         tzinfo = Some (TzLocal (tzw (wall end' - days * us_per_day)))\<rparr>;
                window = filter (\<lambda>a. dt_le start (published a) = Inr True
                                     \<and> dt_le (published a) end' = Inr True) articles
            in r = take (nat top_n) (rev (sort_key key (rev window)))
               \<and> length r = min (nat top_n) (length window)
               \<and> sorted_wrt (\<lambda>a b. dt_le (published b) (published a) = Inr True) r
               \<and> sorted_wrt (\<lambda>a b. key b \<le> key a) r
               \<and> mset r \<subseteq># mset window
               \<and> (\<forall>a\<in>set r. \<forall>b\<in>#mset window - mset r.
                     key b \<le> key a \<and> dt_le (published b) (published a) = Inr True)))
   \<and> ((\<forall>a\<in>set articles. \<exists>k. tzinfo (published a) = Some (TzLocal k))
      \<longrightarrow> (\<forall>a\<in>set articles. \<forall>b\<in>set articles.
              dt_lt (published a) (published b) = Inr (by_wall a < by_wall b)))
   \<and> ((\<forall>a\<in>set articles. \<exists>z. tzinfo (published a) = Some z \<and> utcoffset z = c)
      \<longrightarrow> (\<forall>a\<in>set articles. \<forall>b\<in>set articles.
              dt_lt (published a) (published b) = Inr (by_instant a < by_instant b)))
   \<and> (\<forall>a\<in>set (weekly_load_articles fetch_feed parse_date tzl sources).
          \<exists>k. tzinfo (published a) = Some (TzLocal k))
   \<and> (\<bar>days\<bar> \<le> 999999999 \<and> in_range (wall (now_local tzl clock) - days * us_per_day)
        \<and> (\<forall>a\<in>set articles. tzinfo (published a) \<noteq> None)
      \<longrightarrow> (\<exists>r'. filter_last_days_top_n tzl tzw clock articles days top_n = Inr r'))"
proof (intro conjI impI)
  assume h: "filter_last_days_top_n tzl tzw clock articles days top_n = Inr r"
  define end' where "end' = now_local tzl clock"
  define start where "start = \<lparr>wall = wall end' - days * us_per_day,
      tzinfo = Some (TzLocal (tzw (wall end' - days * us_per_day)))\<rparr>"
  define window where "window = filter (\<lambda>a. dt_le start (published a) = Inr True
      \<and> dt_le (published a) end' = Inr True) articles"
  from filter_last_days_top_n_Inr [OF h]
  obtain ordered where o: "sorted_published_desc window = Inr ordered"
    and r: "r = slice_to top_n ordered"
    unfolding window_def start_def end'_def by blast
  have "set r \<subseteq> set ordered" unfolding r by (rule set_slice_to)
  also have "set ordered = set window"
    using sorted_published_desc_mset [OF o] by (rule mset_eq_setD)
  finally have "set r \<subseteq> set window" .
  then show "\<forall>a\<in>set r. a \<in> set articles
         \<and> dt_le \<lparr>wall = wall (now_local tzl clock) - days * us_per_day,
                  tzinfo = Some (TzLocal (tzw (wall (now_local tzl clock) - days * us_per_day)))\<rparr>
              (published a) = Inr True
         \<and> dt_le (published a) (now_local tzl clock) = Inr True"
    unfolding window_def start_def end'_def by auto
next
  assume h: "filter_last_days_top_n tzl tzw clock articles days top_n = Inr r \<and> 0 \<le> top_n
        \<and> (\<forall>a\<in>set articles. \<forall>b\<in>set articles.
              dt_lt (published a) (published b) = Inr (key a < key b))"
  define end' where "end' = now_local tzl clock"
  define start where "start = \<lparr>wall = wall end' - days * us_per_day,
      tzinfo = Some (TzLocal (tzw (wall end' - days * us_per_day)))\<rparr>"
  define window where "window = filter (\<lambda>a. dt_le start (published a) = Inr True
      \<and> dt_le (published a) end' = Inr True) articles"
  define ordered where "ordered = rev (sort_key key (rev window))"
  have sub: "set window \<subseteq> set articles" by (auto simp: window_def)
  from h have fr: "filter_last_days_top_n tzl tzw clock articles days top_n = Inr r" by blast
  from filter_last_days_top_n_Inr [OF fr]
  obtain ordered' where o: "sorted_published_desc window = Inr ordered'"
    and r: "r = slice_to top_n ordered'"
    unfolding window_def start_def end'_def by blast
  have rep: "\<forall>a\<in>set window. \<forall>b\<in>set window.
      dt_lt (published a) (published b) = Inr (key a < key b)"
    using h sub by blast
  from sorted_published_desc_key [OF rep] o have "ordered' = ordered"
    by (simp add: ordered_def)
  with r h have r': "r = take (nat top_n) ordered" by (simp add: slice_to_def)
  have mo: "mset ordered = mset window" by (simp add: ordered_def)
  have so: "set ordered = set window" by (simp add: ordered_def)
  have le: "dt_le (published b) (published a) = Inr True"
    if "a \<in> set window" "b \<in> set window" "key b \<le> key a" for a b
  proof -
    from rep that have "dt_lt (published a) (published b) = Inr False" by simp
    from dt_le_of_dt_lt [OF this] show ?thesis by simp
  qed
  have sk: "sorted_wrt (\<lambda>a b. key b \<le> key a) ordered"
    unfolding ordered_def by (rule sorted_desc_key)
  have sd: "sorted_wrt (\<lambda>a b. dt_le (published b) (published a) = Inr True) ordered"
    by (rule sorted_wrt_mono_rel [OF _ sk]) (use le so in blast)
  have len: "length r = min (nat top_n) (length window)"
    by (simp add: r' ordered_def)
  have sr: "sorted_wrt (\<lambda>a b. dt_le (published b) (published a) = Inr True) r"
    unfolding r' using sd by (rule sorted_wrt_take)
  have skr: "sorted_wrt (\<lambda>a b. key b \<le> key a) r"
    unfolding r' using sk by (rule sorted_wrt_take)
  have subm: "mset r \<subseteq># mset window"
  proof -
    have "mset (take (nat top_n) ordered) \<subseteq># mset ordered"
      by (metis append_take_drop_id mset_append mset_subset_eq_add_left)
    then show ?thesis by (simp add: r' mo)
  qed
  have rk: "\<forall>a\<in>set r. \<forall>b\<in>#mset window - mset r. key b \<le> key a"
    using take_most_recent [OF sk, of "nat top_n"] by (simp add: r' mo)
  have rec: "\<forall>a\<in>set r. \<forall>b\<in>#mset window - mset r.
      key b \<le> key a \<and> dt_le (published b) (published a) = Inr True"
  proof (intro ballI conjI)
    fix a b assume a: "a \<in> set r" and b: "b \<in># mset window - mset r"
    from rk a b show kb: "key b \<le> key a" by blast
    from a have "a \<in> set window" using so r' by (auto dest: in_set_takeD)
    moreover from b have "b \<in> set window" by (auto dest: in_diffD)
    ultimately show "dt_le (published b) (published a) = Inr True" using kb by (rule le)
  qed
  show "let end' = now_local tzl clock;
                start = \<lparr>wall = wall end' - days * us_per_day,
                         tzinfo = Some (TzLocal (tzw (wall end' - days * us_per_day)))\<rparr>;
                window = filter (\<lambda>a. dt_le start (published a) = Inr True
                                     \<and> dt_le (published a) end' = Inr True) articles
            in r = take (nat top_n) (rev (sort_key key (rev window)))
               \<and> length r = min (nat top_n) (length window)
               \<and> sorted_wrt (\<lambda>a b. dt_le (published b) (published a) = Inr True) r
               \<and> sorted_wrt (\<lambda>a b. key b \<le> key a) r
               \<and> mset r \<subseteq># mset window
               \<and> (\<forall>a\<in>set r. \<forall>b\<in>#mset window - mset r.
                     key b \<le> key a \<and> dt_le (published b) (published a) = Inr True)"
    using r' len sr skr subm rec
    unfolding Let_def end'_def [symmetric] start_def [symmetric] window_def [symmetric]
      ordered_def [symmetric]
    by blast
next
  assume "\<forall>a\<in>set articles. \<exists>k. tzinfo (published a) = Some (TzLocal k)"
  then show "\<forall>a\<in>set articles. \<forall>b\<in>set articles.
              dt_lt (published a) (published b) = Inr (by_wall a < by_wall b)"
    unfolding by_wall_def using dt_lt_local by blast
next
  assume "\<forall>a\<in>set articles. \<exists>z. tzinfo (published a) = Some z \<and> utcoffset z = c"
  then show "\<forall>a\<in>set articles. \<forall>b\<in>set articles.
              dt_lt (published a) (published b) = Inr (by_instant a < by_instant b)"
    unfolding by_instant_def using dt_lt_one_offset by blast
next
  have "set (weekly_load_articles fetch_feed parse_date tzl sources)
      \<subseteq> set (sources_loop fetch_feed (weekly_parse_entry parse_date tzl) sources [])"
    unfolding weekly_load_articles_def by (rule set_finish_subset)
  with weekly_published_local [of fetch_feed parse_date tzl sources]
  show "\<forall>a\<in>set (weekly_load_articles fetch_feed parse_date tzl sources).
          \<exists>k. tzinfo (published a) = Some (TzLocal k)"
    by blast
next
  assume h: "\<bar>days\<bar> \<le> 999999999 \<and> in_range (wall (now_local tzl clock) - days * us_per_day)
        \<and> (\<forall>a\<in>set articles. tzinfo (published a) \<noteq> None)"
  define end' where "end' = now_local tzl clock"
  define start where "start = \<lparr>wall = wall end' - days * us_per_day,
      tzinfo = Some (TzLocal (tzw (wall end' - days * us_per_day)))\<rparr>"
  have "tzinfo end' \<noteq> None" "tzinfo start \<noteq> None"
    by (simp_all add: end'_def start_def now_local_def)
  with h have "\<forall>a\<in>set articles. \<exists>b. between start (published a) end' = Inr b"
    using between_aware by blast
  from filter_window_total [OF this] obtain f where f: "filter_window start end' articles = Inr f"
    by blast
  from filter_window_Inr [OF f] have "set f \<subseteq> set articles" by auto
  with h have "\<forall>a\<in>set f. tzinfo (published a) \<noteq> None" by blast
  then obtain ordered where "sorted_published_desc f = Inr ordered"
    by (simp add: sorted_published_desc_def)
  with h f show "\<exists>r'. filter_last_days_top_n tzl tzw clock articles days top_n = Inr r'"
    by (simp add: filter_last_days_top_n_def Let_def end'_def start_def)
qed

text \<open>The claim as it was stated asks for the most recent articles, most recent first. The
  batch file stores every timestamp in the local zone, and Python compares two datetimes
  of one zone object by the reading of the clock face. In the hour that the clock face
  repeats when daylight saving time ends, an article of 05:30 UTC reads 01:30 and one of
  06:10 UTC reads 01:10: the older one is sorted in front, and with a count of one it is
  the article returned.\<close>

theorem batch_filter_counterexample:
  "weekly_load_articles fetch_fold (\<lambda>_. None) tzl_fold one_source =
     [sample_article ''Before'' ''http://s.example/before'' ''S''
        \<lparr>wall = 63866194200000000, tzinfo = Some (TzLocal (- 14400000000))\<rparr>,
      sample_article ''After'' ''http://s.example/after'' ''S''
        \<lparr>wall = 63866193000000000, tzinfo = Some (TzLocal (- 18000000000))\<rparr>]
   \<and> filter_last_days_top_n tzl_fold tzw_fold 63866232000000000
        (weekly_load_articles fetch_fold (\<lambda>_. None) tzl_fold one_source) 7 2 =
      Inr [sample_article ''Before'' ''http://s.example/before'' ''S''
             \<lparr>wall = 63866194200000000, tzinfo = Some (TzLocal (- 14400000000))\<rparr>,
           sample_article ''After'' ''http://s.example/after'' ''S''
             \<lparr>wall = 63866193000000000, tzinfo = Some (TzLocal (- 18000000000))\<rparr>]
   \<and> filter_last_days_top_n tzl_fold tzw_fold 63866232000000000
        (weekly_load_articles fetch_fold (\<lambda>_. None) tzl_fold one_source) 7 1 =
      Inr [sample_article ''Before'' ''http://s.example/before'' ''S''
             \<lparr>wall = 63866194200000000, tzinfo = Some (TzLocal (- 14400000000))\<rparr>]
   \<and> instant \<lparr>wall = 63866194200000000, tzinfo = Some (TzLocal (- 14400000000))\<rparr>
        = 63866208600000000
   \<and> instant \<lparr>wall = 63866193000000000, tzinfo = Some (TzLocal (- 18000000000))\<rparr>
        = 63866211000000000
   \<and> instant \<lparr>wall = 63866194200000000, tzinfo = Some (TzLocal (- 14400000000))\<rparr>
        < instant \<lparr>wall = 63866193000000000, tzinfo = Some (TzLocal (- 18000000000))\<rparr>"
  by code_simp

theorem batch_filter_top_n_witness:
  "filter_last_days_top_n (\<lambda>_. 3600000000) (\<lambda>_. 3600000000) 63855302400000000 batch_input 30 10
     = Inr (map batch_article (rev [10..<20]))
   \<and> filter (\<lambda>a. dt_le \<lparr>wall = wall (now_local (\<lambda>_. 3600000000) 63855302400000000)
                               - 30 * us_per_day,
                        tzinfo = Some (TzLocal 3600000000)\<rparr> (published a) = Inr True
                \<and> dt_le (published a) (now_local (\<lambda>_. 3600000000) 63855302400000000) = Inr True)
       batch_input = batch_articles
   \<and> length batch_articles = 20
   \<and> length (map batch_article (rev [10..<20])) = 10
   \<and> map batch_article (rev [10..<20]) = take 10 (rev (sort_key by_wall (rev batch_articles)))
   \<and> sorted_wrt (\<lambda>a b. dt_le (published b) (published a) = Inr True)
        (map batch_article (rev [10..<20]))
   \<and> sorted_wrt (\<lambda>a b. by_wall b \<le> by_wall a) (map batch_article (rev [10..<20]))
   \<and> dt_le (published (batch_article 10)) (now_local (\<lambda>_. 3600000000) 63855302400000000)
        = Inr True"
proof -
  let ?tz = "\<lambda>_::int. 3600000000::int"
  let ?r = "map batch_article (rev [10..<20])"
  let ?w = "filter (\<lambda>a. dt_le \<lparr>wall = wall (now_local ?tz 63855302400000000) - 30 * us_per_day,
                        tzinfo = Some (TzLocal 3600000000)\<rparr> (published a) = Inr True
                \<and> dt_le (published a) (now_local ?tz 63855302400000000) = Inr True)
       batch_input"
  have r: "filter_last_days_top_n ?tz ?tz 63855302400000000 batch_input 30 10 = Inr ?r"
    by code_simp
  have w: "?w = batch_articles"
    by code_simp
  have n: "length batch_articles = 20"
    by (simp add: batch_articles_def)
  have l: "\<forall>a\<in>set batch_input. \<exists>k. tzinfo (published a) = Some (TzLocal k)"
    by (simp add: batch_input_def batch_articles_def batch_article_def sample_article_def)
  have z: "(0::int) \<le> 10" by simp
  have m: "batch_article 10 \<in> set ?r" by simp
  note th = batch_filter_top_n [of ?tz ?tz 63855302400000000 batch_input 30 10 ?r by_wall]
  from th l have rep: "\<forall>a\<in>set batch_input. \<forall>b\<in>set batch_input.
      dt_lt (published a) (published b) = Inr (by_wall a < by_wall b)"
    by blast
  from th r have "\<forall>a\<in>set ?r. a \<in> set batch_input
         \<and> dt_le \<lparr>wall = wall (now_local ?tz 63855302400000000) - 30 * us_per_day,
                  tzinfo = Some (TzLocal 3600000000)\<rparr> (published a) = Inr True
         \<and> dt_le (published a) (now_local ?tz 63855302400000000) = Inr True"
    by blast
  with m have e: "dt_le (published (batch_article 10)) (now_local ?tz 63855302400000000)
      = Inr True"
    by blast
  from th r z rep
  have t: "?r = take (nat 10) (rev (sort_key by_wall (rev ?w)))"
    and len: "length ?r = min (nat 10) (length ?w)"
    and s: "sorted_wrt (\<lambda>a b. dt_le (published b) (published a) = Inr True) ?r"
    and sk: "sorted_wrt (\<lambda>a b. by_wall b \<le> by_wall a) ?r"
    unfolding Let_def by blast+
  from len w n have len': "length ?r = 10" by simp
  from t w have t': "?r = take 10 (rev (sort_key by_wall (rev batch_articles)))" by simp
  from r w n len' t' s sk e show ?thesis by blast
qed

subsection \<open>C9: a failing source\<close>

text \<open>
  Claim C9, as the code has it. A registry item whose URL is empty or absent is skipped. An
  exception of the fetch is swallowed and the item contributes no article. An exception
  raised while one of its entries is normalised is swallowed too: the item then contributes
  the articles of the entries before the failing one, and its later entries are not read.
  \<^verbatim>\<open>load_articles\<close> never raises on a source failure (it is a total function of the
  fetch results), and the working list is the concatenation, in registry order, of what each
  item contributes by itself, so no item changes what another contributes.
\<close>

theorem source_fault_isolation:
  "sources_loop fetch_feed parse sources [] = concat (map (contribution fetch_feed parse) sources)
   \<and> (\<not> truthy (src_url src) \<longrightarrow> contribution fetch_feed parse src = [])
   \<and> (truthy (src_url src) \<longrightarrow> fetch_feed (the (src_url src)) = Inl err
        \<longrightarrow> contribution fetch_feed parse src = [])
   \<and> (truthy (src_url src) \<longrightarrow> fetch_feed (the (src_url src)) = Inr entries
        \<longrightarrow> contribution fetch_feed parse src =
            normalized parse (the (if truthy (src_name src) then src_name src else src_url src))
              entries)
   \<and> app_load_articles fetch_feed parse_date sources =
       finish (concat (map (contribution fetch_feed (app_parse_entry parse_date)) sources))
   \<and> weekly_load_articles fetch_feed parse_date tzl sources =
       finish (concat (map (contribution fetch_feed (weekly_parse_entry parse_date tzl)) sources))"
proof (intro conjI impI)
  show "sources_loop fetch_feed parse sources [] = concat (map (contribution fetch_feed parse) sources)"
    using sources_loop_concat [of fetch_feed parse sources "[]"] by simp
  show "contribution fetch_feed parse src = []" if "\<not> truthy (src_url src)"
    using that by (simp add: contribution_cases)
  show "contribution fetch_feed parse src = []"
    if "truthy (src_url src)" "fetch_feed (the (src_url src)) = Inl err"
    using that by (simp add: contribution_cases)
  show "contribution fetch_feed parse src =
      normalized parse (the (if truthy (src_name src) then src_name src else src_url src)) entries"
    if "truthy (src_url src)" "fetch_feed (the (src_url src)) = Inr entries"
    using that by (simp add: contribution_cases)
  show "app_load_articles fetch_feed parse_date sources =
       finish (concat (map (contribution fetch_feed (app_parse_entry parse_date)) sources))"
    using sources_loop_concat [of fetch_feed "app_parse_entry parse_date" sources "[]"]
    by (simp add: app_load_articles_def)
  show "weekly_load_articles fetch_feed parse_date tzl sources =
       finish (concat (map (contribution fetch_feed (weekly_parse_entry parse_date tzl)) sources))"
    using sources_loop_concat [of fetch_feed "weekly_parse_entry parse_date tzl" sources "[]"]
    by (simp add: weekly_load_articles_def)
qed

text \<open>The claim as it was stated gives a source whose normalisation raises no article at all.
  Here the second entry of the feed overflows in the zone conversion (a process five hours
  west of UTC for the batch file, a date text one hour east of UTC for the interactive one),
  and the first entry's article stays in the result.\<close>

theorem source_fault_counterexample:
  "weekly_parse_entry (\<lambda>_. None) (\<lambda>_. - 18000000000)
      (sample_entry ''Old'' ''http://s.example/old'' [1, 1, 1, 0, 0, 0, 0, 1, 0]) ''S''
     = Inl OverflowError
   \<and> weekly_load_articles fetch_overflow (\<lambda>_. None) (\<lambda>_. - 18000000000) one_source =
       [sample_article ''X'' ''http://s.example/x'' ''S''
          \<lparr>wall = 63852778800000000, tzinfo = Some (TzLocal (- 18000000000))\<rparr>]
   \<and> app_parse_entry parse_date_sample
        (text_entry ''Old'' ''http://s.example/old'' ''0001-01-01T00:00:00+01:00'') ''S''
     = Inl OverflowError
   \<and> app_load_articles fetch_overflow_text parse_date_sample one_source =
       [sample_article ''X'' ''http://s.example/x'' ''S''
          \<lparr>wall = 63839664000000000, tzinfo = Some TzUTC\<rparr>]"
  by code_simp

theorem source_fault_isolation_witness:
  "contribution fetch_mixed (weekly_parse_entry (\<lambda>_. None) (\<lambda>_. - 18000000000)) src_no_url = []
   \<and> contribution fetch_mixed (weekly_parse_entry (\<lambda>_. None) (\<lambda>_. - 18000000000)) src_down = []
   \<and> contribution fetch_mixed (weekly_parse_entry (\<lambda>_. None) (\<lambda>_. - 18000000000)) src_S =
       [sample_article ''X'' ''http://s.example/x'' ''S''
          \<lparr>wall = 63852778800000000, tzinfo = Some (TzLocal (- 18000000000))\<rparr>]
   \<and> weekly_load_articles fetch_mixed (\<lambda>_. None) (\<lambda>_. - 18000000000)
        [src_down, src_no_url, src_S] =
       [sample_article ''X'' ''http://s.example/x'' ''S''
          \<lparr>wall = 63852778800000000, tzinfo = Some (TzLocal (- 18000000000))\<rparr>]"
proof -
  let ?p = "weekly_parse_entry (\<lambda>_. None) (\<lambda>_. - 18000000000)"
  let ?x = "sample_article ''X'' ''http://s.example/x'' ''S''
          \<lparr>wall = 63852778800000000, tzinfo = Some (TzLocal (- 18000000000))\<rparr>"
  note th = source_fault_isolation [where fetch_feed = fetch_mixed and parse = ?p
              and sources = "[src_down, src_no_url, src_S]" and parse_date = "\<lambda>_. None"
              and tzl = "\<lambda>_. - 18000000000"]
  have n: "\<not> truthy (src_url src_no_url)" by code_simp
  have d: "truthy (src_url src_down)" "fetch_mixed (the (src_url src_down)) = Inl FetchError"
    by code_simp+
  have s: "truthy (src_url src_S)"
    "fetch_mixed (the (src_url src_S)) = Inr
       [sample_entry ''X'' ''http://s.example/x'' [2024, 6, 1, 0, 0, 0, 5, 153, 0],
        sample_entry ''Old'' ''http://s.example/old'' [1, 1, 1, 0, 0, 0, 0, 1, 0],
        sample_entry ''Y'' ''http://s.example/y'' [2024, 6, 2, 0, 0, 0, 6, 154, 0]]"
    by code_simp+
  have v: "normalized ?p (the (if truthy (src_name src_S) then src_name src_S else src_url src_S))
       [sample_entry ''X'' ''http://s.example/x'' [2024, 6, 1, 0, 0, 0, 5, 153, 0],
        sample_entry ''Old'' ''http://s.example/old'' [1, 1, 1, 0, 0, 0, 0, 1, 0],
        sample_entry ''Y'' ''http://s.example/y'' [2024, 6, 2, 0, 0, 0, 6, 154, 0]] = [?x]"
    by code_simp
  have f: "finish [?x] = [?x]" by code_simp
  from th [of src_no_url] n have c1: "contribution fetch_mixed ?p src_no_url = []" by blast
  from th [of src_down FetchError] d have c2: "contribution fetch_mixed ?p src_down = []" by blast
  from th [of src_S _ "[sample_entry ''X'' ''http://s.example/x'' [2024, 6, 1, 0, 0, 0, 5, 153, 0],
        sample_entry ''Old'' ''http://s.example/old'' [1, 1, 1, 0, 0, 0, 0, 1, 0],
        sample_entry ''Y'' ''http://s.example/y'' [2024, 6, 2, 0, 0, 0, 6, 154, 0]]"] s v
  have c3: "contribution fetch_mixed ?p src_S = [?x]" by simp
  from th [of src_S] have "weekly_load_articles fetch_mixed (\<lambda>_. None) (\<lambda>_. - 18000000000)
        [src_down, src_no_url, src_S] =
       finish (concat (map (contribution fetch_mixed ?p) [src_down, src_no_url, src_S]))"
    by blast
  with c1 c2 c3 f have c4: "weekly_load_articles fetch_mixed (\<lambda>_. None) (\<lambda>_. - 18000000000)
        [src_down, src_no_url, src_S] = [?x]" by simp
  from c1 c2 c3 c4 show ?thesis by blast
qed

subsection \<open>C10: the e-mail step of the batch run\<close>

text \<open>
  Claim C10. Provided the digest itself is produced (\<^verbatim>\<open>PERIOD_DAYS\<close> reads as an integer
  and the batch filter returns), \<^verbatim>\<open>main\<close> behaves as follows. Without a recipient it sends
  nothing, prints that sending is skipped and ends without error. With a recipient and
  without sender address or password the send step raises the \<^verbatim>\<open>ValueError\<close> that asks for
  the credentials, which leaves \<^verbatim>\<open>main\<close> and reaches the operator; nothing is sent, and the
  HTML and CSV files of the digest are in place all the same, since they are written before
  the send is attempted. With recipient and credentials the message handed to the server
  carries these two files as they were written.
\<close>

theorem email_dispatch:
  "x_int x (case PERIOD_DAYS env of None \<Rightarrow> ''7'' | Some v \<Rightarrow> v) = Some period_days
   \<and> filter_last_days_top_n (x_tzl x) (x_tzw x) (x_clock x)
        (weekly_load_articles (x_fetch_feed x) (x_parse_date x) (x_tzl x) DEFAULT_SOURCES)
        period_days 10 = Inr recent
   \<and> html = x_render_html x recent period_days (generate_summary recent)
   \<and> csv = x_csv x recent
   \<longrightarrow>
     (\<not> truthy (RECIPIENT_EMAIL env) \<longrightarrow>
        snd (main x env w) = None
        \<and> outbox (fst (main x env w)) = outbox w
        \<and> stdout (fst (main x env w)) = stdout w @
             [''Wrote: dist/newsletter.html'', ''Wrote: dist/newsletter.csv'',
              ''Wrote: docs/index.html (for GitHub Pages)'',
              ''No RECIPIENT_EMAIL environment variable set. Skipping email sending.'']
        \<and> files (fst (main x env w)) (''dist'', ''newsletter.html'') = Some html
        \<and> files (fst (main x env w)) (''dist'', ''newsletter.csv'') = Some csv)
     \<and> (truthy (RECIPIENT_EMAIL env)
          \<and> (\<not> truthy (EMAIL_SENDER env) \<or> \<not> truthy (EMAIL_PASSWORD env)) \<longrightarrow>
        snd (main x env w) =
          Some (ValueError ''Please set EMAIL_SENDER and EMAIL_PASSWORD environment variables.'')
        \<and> outbox (fst (main x env w)) = outbox w
        \<and> files (fst (main x env w)) (''dist'', ''newsletter.html'') = Some html
        \<and> files (fst (main x env w)) (''dist'', ''newsletter.csv'') = Some csv)
     \<and> (truthy (RECIPIENT_EMAIL env) \<and> truthy (EMAIL_SENDER env) \<and> truthy (EMAIL_PASSWORD env)
          \<and> x_smtp x (the (EMAIL_SENDER env)) (the (EMAIL_PASSWORD env))
               \<lparr>msg_from = the (EMAIL_SENDER env), msg_to = the (RECIPIENT_EMAIL env),
                msg_subject = ''Weekly AI Newsletter'', msg_body = html,
                msg_attachments = [(''newsletter.html'', html), (''newsletter.csv'', csv)]\<rparr> \<longrightarrow>
        snd (main x env w) = None
        \<and> outbox (fst (main x env w)) = outbox w @
             [\<lparr>msg_from = the (EMAIL_SENDER env), msg_to = the (RECIPIENT_EMAIL env),
               msg_subject = ''Weekly AI Newsletter'', msg_body = html,
               msg_attachments = [(''newsletter.html'', html), (''newsletter.csv'', csv)]\<rparr>])"
proof (intro impI)
  assume h: "x_int x (case PERIOD_DAYS env of None \<Rightarrow> ''7'' | Some v \<Rightarrow> v) = Some period_days
   \<and> filter_last_days_top_n (x_tzl x) (x_tzw x) (x_clock x)
        (weekly_load_articles (x_fetch_feed x) (x_parse_date x) (x_tzl x) DEFAULT_SOURCES)
        period_days 10 = Inr recent
   \<and> html = x_render_html x recent period_days (generate_summary recent)
   \<and> csv = x_csv x recent"
  then have m: "main x env w =
     (let w6 = digest_world html csv w in
      if truthy (RECIPIENT_EMAIL env) then
        (case send_email x env ''Weekly AI Newsletter'' html (the (RECIPIENT_EMAIL env))
                [(''dist'', ''newsletter.html''), (''dist'', ''newsletter.csv'')] w6 of
           Inl err \<Rightarrow> (w6, Some err)
         | Inr w7 \<Rightarrow> (print (''Newsletter sent to '' @ the (RECIPIENT_EMAIL env)) w7, None))
      else
        (print ''No RECIPIENT_EMAIL environment variable set. Skipping email sending.'' w6, None))"
    using main_digest by blast
  show "(\<not> truthy (RECIPIENT_EMAIL env) \<longrightarrow>
        snd (main x env w) = None
        \<and> outbox (fst (main x env w)) = outbox w
        \<and> stdout (fst (main x env w)) = stdout w @
             [''Wrote: dist/newsletter.html'', ''Wrote: dist/newsletter.csv'',
              ''Wrote: docs/index.html (for GitHub Pages)'',
              ''No RECIPIENT_EMAIL environment variable set. Skipping email sending.'']
        \<and> files (fst (main x env w)) (''dist'', ''newsletter.html'') = Some html
        \<and> files (fst (main x env w)) (''dist'', ''newsletter.csv'') = Some csv)
     \<and> (truthy (RECIPIENT_EMAIL env)
          \<and> (\<not> truthy (EMAIL_SENDER env) \<or> \<not> truthy (EMAIL_PASSWORD env)) \<longrightarrow>
        snd (main x env w) =
          Some (ValueError ''Please set EMAIL_SENDER and EMAIL_PASSWORD environment variables.'')
        \<and> outbox (fst (main x env w)) = outbox w
        \<and> files (fst (main x env w)) (''dist'', ''newsletter.html'') = Some html
        \<and> files (fst (main x env w)) (''dist'', ''newsletter.csv'') = Some csv)
     \<and> (truthy (RECIPIENT_EMAIL env) \<and> truthy (EMAIL_SENDER env) \<and> truthy (EMAIL_PASSWORD env)
          \<and> x_smtp x (the (EMAIL_SENDER env)) (the (EMAIL_PASSWORD env))
               \<lparr>msg_from = the (EMAIL_SENDER env), msg_to = the (RECIPIENT_EMAIL env),
                msg_subject = ''Weekly AI Newsletter'', msg_body = html,
                msg_attachments = [(''newsletter.html'', html), (''newsletter.csv'', csv)]\<rparr> \<longrightarrow>
        snd (main x env w) = None
        \<and> outbox (fst (main x env w)) = outbox w @
             [\<lparr>msg_from = the (EMAIL_SENDER env), msg_to = the (RECIPIENT_EMAIL env),
               msg_subject = ''Weekly AI Newsletter'', msg_body = html,
               msg_attachments = [(''newsletter.html'', html), (''newsletter.csv'', csv)]\<rparr>])"
  proof (intro conjI impI)
    assume n: "\<not> truthy (RECIPIENT_EMAIL env)"
    with m have r: "main x env w =
        (print ''No RECIPIENT_EMAIL environment variable set. Skipping email sending.''
           (digest_world html csv w), None)"
      by (simp add: Let_def)
    show "snd (main x env w) = None" by (simp add: r)
    show "outbox (fst (main x env w)) = outbox w"
      by (simp add: r print_def digest_world_files)
    show "stdout (fst (main x env w)) = stdout w @
             [''Wrote: dist/newsletter.html'', ''Wrote: dist/newsletter.csv'',
              ''Wrote: docs/index.html (for GitHub Pages)'',
              ''No RECIPIENT_EMAIL environment variable set. Skipping email sending.'']"
      by (simp add: r print_def digest_world_files)
    show "files (fst (main x env w)) (''dist'', ''newsletter.html'') = Some html"
      by (simp add: r print_def digest_world_files)
    show "files (fst (main x env w)) (''dist'', ''newsletter.csv'') = Some csv"
      by (simp add: r print_def digest_world_files)
  next
    assume c: "truthy (RECIPIENT_EMAIL env)
          \<and> (\<not> truthy (EMAIL_SENDER env) \<or> \<not> truthy (EMAIL_PASSWORD env))"
    then have "\<not> truthy (EMAIL_SENDER env) \<or> \<not> truthy (EMAIL_PASSWORD env)" by blast
    note s = send_email_no_credentials [OF this]
    from m c have r: "main x env w = (digest_world html csv w,
        Some (ValueError ''Please set EMAIL_SENDER and EMAIL_PASSWORD environment variables.''))"
      by (simp add: Let_def s)
    show "snd (main x env w) =
          Some (ValueError ''Please set EMAIL_SENDER and EMAIL_PASSWORD environment variables.'')"
      by (simp add: r)
    show "outbox (fst (main x env w)) = outbox w" by (simp add: r digest_world_files)
    show "files (fst (main x env w)) (''dist'', ''newsletter.html'') = Some html"
      by (simp add: r digest_world_files)
    show "files (fst (main x env w)) (''dist'', ''newsletter.csv'') = Some csv"
      by (simp add: r digest_world_files)
  next
    assume c: "truthy (RECIPIENT_EMAIL env) \<and> truthy (EMAIL_SENDER env) \<and> truthy (EMAIL_PASSWORD env)
          \<and> x_smtp x (the (EMAIL_SENDER env)) (the (EMAIL_PASSWORD env))
               \<lparr>msg_from = the (EMAIL_SENDER env), msg_to = the (RECIPIENT_EMAIL env),
                msg_subject = ''Weekly AI Newsletter'', msg_body = html,
                msg_attachments = [(''newsletter.html'', html), (''newsletter.csv'', csv)]\<rparr>"
    then have t: "truthy (EMAIL_SENDER env)" "truthy (EMAIL_PASSWORD env)" by blast+
    note s = send_email_digest [OF t]
    from m c have r: "main x env w =
        (print (''Newsletter sent to '' @ the (RECIPIENT_EMAIL env))
           ((digest_world html csv w)\<lparr>outbox := outbox w @
             [\<lparr>msg_from = the (EMAIL_SENDER env), msg_to = the (RECIPIENT_EMAIL env),
               msg_subject = ''Weekly AI Newsletter'', msg_body = html,
               msg_attachments = [(''newsletter.html'', html), (''newsletter.csv'', csv)]\<rparr>]\<rparr>),
         None)"
      by (simp add: Let_def s)
    show "snd (main x env w) = None" by (simp add: r)
    show "outbox (fst (main x env w)) = outbox w @
             [\<lparr>msg_from = the (EMAIL_SENDER env), msg_to = the (RECIPIENT_EMAIL env),
               msg_subject = ''Weekly AI Newsletter'', msg_body = html,
               msg_attachments = [(''newsletter.html'', html), (''newsletter.csv'', csv)]\<rparr>]"
      by (simp add: r print_def)
  qed
qed

theorem email_dispatch_witness:
  "snd (main sample_externals env_no_recipient empty_world) = None
   \<and> outbox (fst (main sample_externals env_no_recipient empty_world)) = []
   \<and> stdout (fst (main sample_externals env_no_recipient empty_world)) =
       [''Wrote: dist/newsletter.html'', ''Wrote: dist/newsletter.csv'',
        ''Wrote: docs/index.html (for GitHub Pages)'',
        ''No RECIPIENT_EMAIL environment variable set. Skipping email sending.'']
   \<and> snd (main sample_externals env_no_password empty_world) =
       Some (ValueError ''Please set EMAIL_SENDER and EMAIL_PASSWORD environment variables.'')
   \<and> outbox (fst (main sample_externals env_no_password empty_world)) = []
   \<and> files (fst (main sample_externals env_no_password empty_world))
        (''dist'', ''newsletter.html'')
       = Some (''<html>'' @ generate_summary sample_recent @ ''</html>'')
   \<and> files (fst (main sample_externals env_no_password empty_world))
        (''dist'', ''newsletter.csv'')
       = Some ''title,source,published,link,authors''"
proof -
  let ?html = "''<html>'' @ generate_summary sample_recent @ ''</html>''"
  let ?csv = "''title,source,published,link,authors''"
  have d1: "x_int sample_externals
      (case PERIOD_DAYS env_no_recipient of None \<Rightarrow> ''7'' | Some v \<Rightarrow> v) = Some 30"
    by code_simp
  have d2: "x_int sample_externals
      (case PERIOD_DAYS env_no_password of None \<Rightarrow> ''7'' | Some v \<Rightarrow> v) = Some 30"
    by code_simp
  have f: "filter_last_days_top_n (x_tzl sample_externals) (x_tzw sample_externals)
           (x_clock sample_externals)
        (weekly_load_articles (x_fetch_feed sample_externals) (x_parse_date sample_externals)
           (x_tzl sample_externals) DEFAULT_SOURCES) 30 10 = Inr sample_recent"
    by code_simp
  have h: "?html = x_render_html sample_externals sample_recent 30 (generate_summary sample_recent)"
    by (simp add: sample_externals_def)
  have c: "?csv = x_csv sample_externals sample_recent"
    by (simp add: sample_externals_def)
  have n: "\<not> truthy (RECIPIENT_EMAIL env_no_recipient)" by code_simp
  have p: "truthy (RECIPIENT_EMAIL env_no_password)
      \<and> (\<not> truthy (EMAIL_SENDER env_no_password) \<or> \<not> truthy (EMAIL_PASSWORD env_no_password))"
    by code_simp
  have e: "outbox empty_world = []" "stdout empty_world = []"
    by (simp_all add: empty_world_def)
  from email_dispatch [of sample_externals env_no_recipient 30 sample_recent ?html ?csv empty_world]
    d1 f h c n
  have a: "snd (main sample_externals env_no_recipient empty_world) = None
        \<and> outbox (fst (main sample_externals env_no_recipient empty_world)) = outbox empty_world
        \<and> stdout (fst (main sample_externals env_no_recipient empty_world)) = stdout empty_world @
             [''Wrote: dist/newsletter.html'', ''Wrote: dist/newsletter.csv'',
              ''Wrote: docs/index.html (for GitHub Pages)'',
              ''No RECIPIENT_EMAIL environment variable set. Skipping email sending.'']"
    by blast
  from email_dispatch [of sample_externals env_no_password 30 sample_recent ?html ?csv empty_world]
    d2 f h c p
  have b: "snd (main sample_externals env_no_password empty_world) =
          Some (ValueError ''Please set EMAIL_SENDER and EMAIL_PASSWORD environment variables.'')
        \<and> outbox (fst (main sample_externals env_no_password empty_world)) = outbox empty_world
        \<and> files (fst (main sample_externals env_no_password empty_world))
             (''dist'', ''newsletter.html'') = Some ?html
        \<and> files (fst (main sample_externals env_no_password empty_world))
             (''dist'', ''newsletter.csv'') = Some ?csv"
    by blast
  from a b show ?thesis unfolding e by simp
qed

end
